theory Spec2Isabelle
  imports Main "HOL-Library.Char_ord" "HOL-Library.List_Lexorder" "HOL-Library.AList" "HOL-Library.Word"
begin

chapter \<open>The golf data proxy: cache keys, cache levels, retries, circuit breaker,
  transformers, request path and session tokens\<close>

text \<open>
  A shallow embedding of the JavaScript sources: every function of the repository that
  the properties below are about is a HOL function of the same name (without the leading
  underscore of private methods), with the same case order and the same checks.
  \<^item> State that a method mutates is passed in and returned.
  \<^item> A reading of the clock (\<^verbatim>\<open>Date.now()\<close>, \<^verbatim>\<open>new Date()\<close>) is an argument.
  \<^item> An exception is a value: \<open>Inl\<close> of a sum type.
  \<^item> The first part of the theory holds the model, the second part its properties.
\<close>

section \<open>Cache keys: \<^verbatim>\<open>CacheService.generateKey\<close> (src/services/cacheService.js)\<close>

text \<open>
  JavaScript strings are modelled as \<^typ>\<open>string\<close>; the default \<^verbatim>\<open>Array.prototype.sort\<close>
  compares strings code unit by code unit, a proper prefix first, which is the
  lexicographic order on \<^typ>\<open>char list\<close>.

  A parameter object is an association list in insertion order, with pairwise distinct
  names (a JavaScript object holds a property name once). A parameter value is
  represented by the text the template literal \<^verbatim>\<open>${params[key]}\<close> renders for it.
\<close>

datatype js_error = TypeError

type_synonym params = "(string \<times> string) list"

text \<open>The object literal assigned to \<^verbatim>\<open>this.keyPatterns\<close> in the constructor.\<close>

definition keyPatterns :: "(string \<times> string) list" where
  "keyPatterns =
     [(''tournament'', ''tournament:''),
      (''rankings'', ''rankings:''),
      (''field'', ''field:''),
      (''scoring'', ''scoring:''),
      (''playerStats'', ''player-stats:''),
      (''bettingOdds'', ''betting-odds:'')]"

text \<open>
  \<^verbatim>\<open>keyPatterns\<close> is a plain object literal, so the read \<^verbatim>\<open>this.keyPatterns[pattern]\<close>
  also finds the properties inherited from \<^verbatim>\<open>Object.prototype\<close>. None of them is a
  string: eleven are built-in functions and \<^verbatim>\<open>__proto__\<close> is the prototype object.
  The table gives, for each inherited name, the text that string conversion renders for
  the value on Node.js.
\<close>

definition object_prototype :: "(string \<times> string) list" where
  "object_prototype =
     [(''constructor'', ''function Object() { [native code] }''),
      (''__defineGetter__'', ''function __defineGetter__() { [native code] }''),
      (''__defineSetter__'', ''function __defineSetter__() { [native code] }''),
      (''hasOwnProperty'', ''function hasOwnProperty() { [native code] }''),
      (''__lookupGetter__'', ''function __lookupGetter__() { [native code] }''),
      (''__lookupSetter__'', ''function __lookupSetter__() { [native code] }''),
      (''isPrototypeOf'', ''function isPrototypeOf() { [native code] }''),
      (''propertyIsEnumerable'', ''function propertyIsEnumerable() { [native code] }''),
      (''toString'', ''function toString() { [native code] }''),
      (''valueOf'', ''function valueOf() { [native code] }''),
      (''toLocaleString'', ''function toLocaleString() { [native code] }''),
      (''__proto__'', ''[object Object]'')]"

text \<open>The value of a property read: undefined, a string, or a function or object
  (carried with its rendering as a string).\<close>

datatype looked_up = Undefined | Str string | NonString string

definition keyPatterns_get :: "string \<Rightarrow> looked_up" where
  "keyPatterns_get pattern =
     (case map_of keyPatterns pattern of
        Some s \<Rightarrow> Str s
      | None \<Rightarrow>
          (case map_of object_prototype pattern of
             Some r \<Rightarrow> NonString r
           | None \<Rightarrow> Undefined))"

text \<open>\<^verbatim>\<open>this.keyPatterns[pattern] || pattern\<close>: undefined and the empty string are falsy.\<close>

definition baseKey_of :: "string \<Rightarrow> looked_up" where
  "baseKey_of pattern =
     (case keyPatterns_get pattern of
        Undefined \<Rightarrow> Str pattern
      | Str s \<Rightarrow> (if s = [] then Str pattern else Str s)
      | NonString r \<Rightarrow> NonString r)"

fun render :: "looked_up \<Rightarrow> string" where
  "render Undefined = ''undefined''"
| "render (Str s) = s"
| "render (NonString r) = r"

text \<open>\<^verbatim>\<open>Array.prototype.join\<close> with a separator.\<close>

fun join :: "string \<Rightarrow> string list \<Rightarrow> string" where
  "join sep [] = []"
| "join sep [x] = x"
| "join sep (x # y # ys) = x @ sep @ join sep (y # ys)"

text \<open>\<^verbatim>\<open>key => `${key}:${params[key]}`\<close>\<close>

definition param_entry :: "params \<Rightarrow> string \<Rightarrow> string" where
  "param_entry ps key =
     key @ '':'' @ (case map_of ps key of Some v \<Rightarrow> v | None \<Rightarrow> ''undefined'')"

definition paramString :: "params \<Rightarrow> string" where
  "paramString ps = join ''|'' (map (param_entry ps) (sort (map fst ps)))"

text \<open>
  \<^verbatim>\<open>return paramString ? `${baseKey}${paramString}` : baseKey.slice(0, -1)\<close>.
  A function or object has no \<^verbatim>\<open>slice\<close> method, so the second branch throws a
  TypeError for it; on a string \<^verbatim>\<open>slice(0, -1)\<close> drops the last character.
\<close>

definition generateKey :: "string \<Rightarrow> params \<Rightarrow> js_error + string" where
  "generateKey pattern ps =
     (let baseKey = baseKey_of pattern;
          pstr = paramString ps
      in if pstr \<noteq> [] then Inr (render baseKey @ pstr)
         else (case baseKey of
                 Str s \<Rightarrow> Inr (butlast s)
               | _ \<Rightarrow> Inl TypeError))"

text \<open>The parameters \<open>ps\<close> with the value of the parameter \<open>name\<close> replaced by \<open>v\<close>
  (position and every other parameter unchanged): the only change between two requests
  that differ in an API key, a token or a secret.\<close>

definition with_value :: "string \<Rightarrow> string \<Rightarrow> params \<Rightarrow> params" where
  "with_value name v ps = map (\<lambda>(a, b). if a = name then (a, v) else (a, b)) ps"

section \<open>The cache key of a request: the route handlers (src/routes/dataGolf.js) and the
  methods of \<^verbatim>\<open>DataGolfService\<close> (services/dataGolfService.js) that call \<^verbatim>\<open>generateKey\<close>\<close>

text \<open>
  \<^verbatim>\<open>generateKey\<close> is called at six places, the six data methods of the service, each
  with a literal pattern; each method is called at one place, by the handler of one
  route, which builds the \<^verbatim>\<open>options\<close> object from the properties of \<^verbatim>\<open>req.query\<close> that
  it names and from no other. A request is its path parameter
  (\<^verbatim>\<open>req.params.tournamentId\<close> or \<^verbatim>\<open>req.params.playerId\<close>, the empty string on the
  routes that have none) and its query, the values as the texts that the key renders for
  them. The validation middleware that runs before a handler reads the request and
  either answers 400 or passes it on unchanged; the key is computed when the handler
  runs, whether or not \<^verbatim>\<open>cache=false\<close> was asked. \<^verbatim>\<open>parseInt\<close>, a function of the
  language, is a parameter: the text of its result.
\<close>

datatype route = Tournaments | Rankings | Field | Scoring | PlayerStats | BettingOdds

record request =
  path_id :: string
  query :: params

text \<open>An object literal, some of whose values are \<^verbatim>\<open>undefined\<close>, after
  \<^verbatim>\<open>Object.keys(options).forEach(key => options[key] === undefined && delete options[key])\<close>.\<close>

definition defined_props :: "(string \<times> string option) list \<Rightarrow> params" where
  "defined_props ps =
     concat (map (\<lambda>(key, v). case v of None \<Rightarrow> [] | Some x \<Rightarrow> [(key, x)]) ps)"

text \<open>\<^verbatim>\<open>v ? parseInt(v) : undefined\<close>: the empty string and \<^verbatim>\<open>undefined\<close> are falsy.\<close>

definition parsed :: "(string \<Rightarrow> string) \<Rightarrow> string option \<Rightarrow> string option" where
  "parsed parseInt v =
     (case v of None \<Rightarrow> None | Some s \<Rightarrow> if s \<noteq> [] then Some (parseInt s) else None)"

text \<open>The \<^verbatim>\<open>options\<close> object of each handler.\<close>

fun handler_options :: "(string \<Rightarrow> string) \<Rightarrow> route \<Rightarrow> params \<Rightarrow> params" where
  "handler_options parseInt Tournaments q =
     defined_props
       [(''season'', map_of q ''season''),
        (''tour'', map_of q ''tour''),
        (''status'', map_of q ''status''),
        (''limit'', parsed parseInt (map_of q ''limit''))]"
| "handler_options parseInt Rankings q =
     defined_props
       [(''season'', map_of q ''season''),
        (''tour'', map_of q ''tour''),
        (''limit'', parsed parseInt (map_of q ''limit''))]"
| "handler_options parseInt Field q =
     defined_props
       [(''round'', map_of q ''round''),
        (''status'', map_of q ''status'')]"
| "handler_options parseInt Scoring q =
     defined_props
       [(''round'', parsed parseInt (map_of q ''round'')),
        (''live'', Some (if map_of q ''live'' = Some ''true'' then ''true'' else ''false''))]"
| "handler_options parseInt PlayerStats q =
     defined_props
       [(''season'', parsed parseInt (map_of q ''season'')),
        (''tour'', map_of q ''tour'')]"
| "handler_options parseInt BettingOdds q =
     defined_props
       [(''tournamentId'', map_of q ''tournamentId''),
        (''bookmaker'', map_of q ''bookmaker''),
        (''market'', map_of q ''market'')]"

text \<open>The properties of \<^verbatim>\<open>req.query\<close> that the handler of a route reads for its options.\<close>

fun query_names :: "route \<Rightarrow> string list" where
  "query_names Tournaments = [''season'', ''tour'', ''status'', ''limit'']"
| "query_names Rankings = [''season'', ''tour'', ''limit'']"
| "query_names Field = [''round'', ''status'']"
| "query_names Scoring = [''round'', ''live'']"
| "query_names PlayerStats = [''season'', ''tour'']"
| "query_names BettingOdds = [''tournamentId'', ''bookmaker'', ''market'']"

text \<open>The literal pattern that the service method of a route passes to \<^verbatim>\<open>generateKey\<close>.\<close>

fun pattern_of :: "route \<Rightarrow> string" where
  "pattern_of Tournaments = ''tournament''"
| "pattern_of Rankings = ''rankings''"
| "pattern_of Field = ''field''"
| "pattern_of Scoring = ''scoring''"
| "pattern_of PlayerStats = ''playerStats''"
| "pattern_of BettingOdds = ''bettingOdds''"

text \<open>\<^verbatim>\<open>{ tournamentId, ...options }\<close> and \<^verbatim>\<open>{ playerId, ...options }\<close>.\<close>

definition spread_id :: "string \<Rightarrow> string \<Rightarrow> params \<Rightarrow> params" where
  "spread_id name ident options =
     foldl (\<lambda>acc (key, v). AList.update key v acc) [(name, ident)] options"

datatype request_error =
    IdRequired
  | KeyError js_error

definition key_result :: "js_error + string \<Rightarrow> request_error + string" where
  "key_result r = (case r of Inl e \<Rightarrow> Inl (KeyError e) | Inr key \<Rightarrow> Inr key)"

text \<open>The \<^verbatim>\<open>cacheKey\<close> that the service method computes (\<^verbatim>\<open>getTournaments\<close>,
  \<^verbatim>\<open>getPlayerRankings\<close>, \<^verbatim>\<open>getTournamentField\<close>, \<^verbatim>\<open>getLiveScoring\<close>, \<^verbatim>\<open>getPlayerStats\<close>,
  \<^verbatim>\<open>getBettingOdds\<close>); three of them throw first when the identifier is falsy.\<close>

fun service_cache_key :: "route \<Rightarrow> string \<Rightarrow> params \<Rightarrow> request_error + string" where
  "service_cache_key Tournaments ident options =
     key_result (generateKey (pattern_of Tournaments) options)"
| "service_cache_key Rankings ident options =
     key_result (generateKey (pattern_of Rankings) options)"
| "service_cache_key Field ident options =
     (if ident = [] then Inl IdRequired
      else key_result (generateKey (pattern_of Field) (spread_id ''tournamentId'' ident options)))"
| "service_cache_key Scoring ident options =
     (if ident = [] then Inl IdRequired
      else key_result (generateKey (pattern_of Scoring) (spread_id ''tournamentId'' ident options)))"
| "service_cache_key PlayerStats ident options =
     (if ident = [] then Inl IdRequired
      else key_result (generateKey (pattern_of PlayerStats) (spread_id ''playerId'' ident options)))"
| "service_cache_key BettingOdds ident options =
     key_result (generateKey (pattern_of BettingOdds) options)"

text \<open>The cache key of a request to a route.\<close>

definition request_cache_key ::
  "(string \<Rightarrow> string) \<Rightarrow> route \<Rightarrow> request \<Rightarrow> request_error + string" where
  "request_cache_key parseInt r req =
     service_cache_key r (path_id req) (handler_options parseInt r (query req))"

section \<open>The three-level cache: \<^verbatim>\<open>CacheService\<close> (src/services/cacheService.js)\<close>

text \<open>
  A value handed to the cache is either a payload or an entry object built by
  \<^verbatim>\<open>set\<close>. The setters tell the two apart by
  \<^verbatim>\<open>typeof data === 'object' && data.timestamp\<close>; a payload \<open>Plain x\<close> stands for a
  value without a truthy \<^verbatim>\<open>timestamp\<close> property (what the transformers of
  dataGolfClient.js return). Times are milliseconds (\<^verbatim>\<open>Date.now()\<close>), TTLs are seconds;
  the number 0 is falsy.
\<close>

datatype 'a jsdata = Plain 'a | Wrapped "'a entry"
and 'a entry =
  Entry (entry_data: "'a jsdata") (entry_timestamp: int) (entry_ttl: int)
        (entry_accessCount: nat)

record stats =
  hits :: nat
  misses :: nat
  evictions :: nat

record tier_config =
  enabled :: bool
  maxSize :: nat
  ttl :: int

record cache_config =
  l1 :: tier_config
  l2 :: tier_config
  l3 :: tier_config

text \<open>
  A JavaScript \<^verbatim>\<open>Map\<close> keeps its keys in insertion order: it is an association list
  with distinct keys, \<^verbatim>\<open>set\<close> is \<^const>\<open>AList.update\<close> (an existing key keeps its
  place, a new key goes to the end), \<^verbatim>\<open>delete\<close> is \<^const>\<open>AList.delete\<close>,
  \<^verbatim>\<open>size\<close> is the length. A pending timer of \<^verbatim>\<open>ttlTimers\<close> is represented by the
  time at which it is due; when it fires it runs \<^verbatim>\<open>this.delete(key)\<close>.

  Entries are held by value: each map has its own copy of an entry. In the source the
  maps hold references, and the entry object that \<^verbatim>\<open>set\<close> builds is the same object in
  every enabled level. The one property of an entry that is assigned after the entry is
  built is \<^verbatim>\<open>accessCount\<close> (\<^verbatim>\<open>entry.accessCount++\<close> at a hit), and the one place where
  it is read is the loop of \<^verbatim>\<open>_evictFromL3\<close>. So the copies agree with the source on
  \<open>entry_data\<close>, \<open>entry_timestamp\<close> and \<open>entry_ttl\<close> at all times, and on
  \<open>entry_accessCount\<close> as long as no hit has been counted on an entry that \<^verbatim>\<open>set\<close>
  wrote to several levels; after such a hit the source shows the count in every level
  that still holds the object, the copies only in the level of the hit, and the choice
  of \<^verbatim>\<open>_evictFromL3\<close> can differ. The properties below concern the time to live of the
  entries, the timers and the eviction from L1; none of them follows a hit by an
  eviction from L3.
\<close>

record 'a cache_service =
  cacheConfig :: cache_config
  l1Cache :: "(string \<times> 'a entry) list"
  l1AccessOrder :: "(string \<times> int) list"
  l1Stats :: stats
  l2Cache :: "(string \<times> 'a entry) list"
  l2Stats :: stats
  l3Cache :: "(string \<times> 'a entry) list"
  l3Stats :: stats
  ttlTimers :: "(string \<times> int) list"

text \<open>\<^verbatim>\<open>_isExpired(entry)\<close>, with \<open>now\<close> the reading of \<^verbatim>\<open>Date.now()\<close>.\<close>

definition isExpired :: "int \<Rightarrow> 'a entry \<Rightarrow> bool" where
  "isExpired now e =
     (if entry_ttl e = 0 then False
      else now - entry_timestamp e > entry_ttl e * 1000)"

text \<open>\<^verbatim>\<open>async delete(key)\<close>: the flag returned and the state left.\<close>

definition cache_delete :: "string \<Rightarrow> 'a cache_service \<Rightarrow> bool \<times> 'a cache_service" where
  "cache_delete key s =
     (let in1 = (map_of (l1Cache s) key \<noteq> None);
          s1 = (if in1
                then s\<lparr>l1Cache := AList.delete key (l1Cache s),
                       l1AccessOrder := AList.delete key (l1AccessOrder s)\<rparr>
                else s);
          in2 = (map_of (l2Cache s1) key \<noteq> None);
          s2 = (if in2 then s1\<lparr>l2Cache := AList.delete key (l2Cache s1)\<rparr> else s1);
          in3 = (map_of (l3Cache s2) key \<noteq> None);
          s3 = (if in3 then s2\<lparr>l3Cache := AList.delete key (l3Cache s2)\<rparr> else s2);
          s4 = s3\<lparr>ttlTimers := AList.delete key (ttlTimers s3)\<rparr>
      in (in1 \<or> in2 \<or> in3, s4))"

text \<open>The delay that \<^verbatim>\<open>setTimeout(callback, ms)\<close> of Node arms: a delay below 1 ms or
  above \<open>2\<^sup>3\<^sup>1 - 1\<close> ms is set to 1 ms.\<close>

definition TIMEOUT_MAX :: int where
  "TIMEOUT_MAX = 2147483647"

definition timer_delay :: "int \<Rightarrow> int" where
  "timer_delay ms = (if 1 \<le> ms \<and> ms \<le> TIMEOUT_MAX then ms else 1)"

text \<open>\<^verbatim>\<open>_setTTLTimer(key, ttl)\<close>, called at time \<open>now\<close>: the timer of the key, if there is
  one, is replaced by a timer armed with \<^verbatim>\<open>ttl * 1000\<close>.\<close>

definition setTTLTimer :: "int \<Rightarrow> string \<Rightarrow> int \<Rightarrow> 'a cache_service \<Rightarrow> 'a cache_service" where
  "setTTLTimer now key t s =
     s\<lparr>ttlTimers := AList.update key (now + timer_delay (t * 1000)) (ttlTimers s)\<rparr>"

text \<open>The timer of \<open>key\<close> fires: its callback is \<^verbatim>\<open>this.delete(key)\<close>.\<close>

definition fire_timer :: "string \<Rightarrow> 'a cache_service \<Rightarrow> 'a cache_service" where
  "fire_timer key s = snd (cache_delete key s)"

text \<open>
  The expression
  \<^verbatim>\<open>typeof data === 'object' && data.timestamp ? data : {data, timestamp: Date.now(), ttl, accessCount: 0}\<close>
  shared by the three setters.
\<close>

definition as_entry :: "int \<Rightarrow> int \<Rightarrow> 'a jsdata \<Rightarrow> 'a entry" where
  "as_entry now t d =
     (case d of
        Wrapped e \<Rightarrow> if entry_timestamp e \<noteq> 0 then e else Entry d now t 0
      | Plain x \<Rightarrow> Entry d now t 0)"

subsection \<open>L1: least recently used\<close>

text \<open>\<^verbatim>\<open>_evictFromL1()\<close>: the first key of \<^verbatim>\<open>l1AccessOrder\<close>, when there is one and it is
  truthy (not the empty string).\<close>

definition evictFromL1 :: "'a cache_service \<Rightarrow> 'a cache_service" where
  "evictFromL1 s =
     (case l1AccessOrder s of
        [] \<Rightarrow> s
      | (oldestKey, _) # _ \<Rightarrow>
          if oldestKey \<noteq> []
          then s\<lparr>l1Cache := AList.delete oldestKey (l1Cache s),
                 l1AccessOrder := AList.delete oldestKey (l1AccessOrder s),
                 l1Stats := (l1Stats s)\<lparr>evictions := evictions (l1Stats s) + 1\<rparr>\<rparr>
          else s)"

definition setToL1 ::
  "int \<Rightarrow> string \<Rightarrow> 'a jsdata \<Rightarrow> int \<Rightarrow> 'a cache_service \<Rightarrow> 'a cache_service" where
  "setToL1 now key d t s =
     (let s1 = (if length (l1Cache s) \<ge> maxSize (l1 (cacheConfig s))
                then evictFromL1 s else s);
          entry = as_entry now t d;
          s2 = s1\<lparr>l1Cache := AList.update key entry (l1Cache s1),
                   l1AccessOrder := AList.update key now (l1AccessOrder s1)\<rparr>
      in if t \<noteq> 0 then setTTLTimer now key t s2 else s2)"

definition getFromL1 ::
  "int \<Rightarrow> string \<Rightarrow> 'a cache_service \<Rightarrow> 'a jsdata option \<times> 'a cache_service" where
  "getFromL1 now key s =
     (case map_of (l1Cache s) key of
        None \<Rightarrow> (None, s\<lparr>l1Stats := (l1Stats s)\<lparr>misses := misses (l1Stats s) + 1\<rparr>\<rparr>)
      | Some entry \<Rightarrow>
          if isExpired now entry
          then (None, s\<lparr>l1Cache := AList.delete key (l1Cache s),
                         l1AccessOrder := AList.delete key (l1AccessOrder s),
                         l1Stats := (l1Stats s)\<lparr>misses := misses (l1Stats s) + 1\<rparr>\<rparr>)
          else (Some (entry_data entry),
                s\<lparr>l1Cache :=
                     AList.update key
                       (Entry (entry_data entry) (entry_timestamp entry) (entry_ttl entry)
                          (entry_accessCount entry + 1))
                       (l1Cache s),
                   l1AccessOrder := AList.update key now (AList.delete key (l1AccessOrder s)),
                   l1Stats := (l1Stats s)\<lparr>hits := hits (l1Stats s) + 1\<rparr>\<rparr>))"

subsection \<open>L2: first in, first out\<close>

definition evictFromL2 :: "'a cache_service \<Rightarrow> 'a cache_service" where
  "evictFromL2 s =
     (case l2Cache s of
        [] \<Rightarrow> s
      | (firstKey, _) # _ \<Rightarrow>
          if firstKey \<noteq> []
          then s\<lparr>l2Cache := AList.delete firstKey (l2Cache s),
                 l2Stats := (l2Stats s)\<lparr>evictions := evictions (l2Stats s) + 1\<rparr>\<rparr>
          else s)"

definition setToL2 ::
  "int \<Rightarrow> string \<Rightarrow> 'a jsdata \<Rightarrow> int \<Rightarrow> 'a cache_service \<Rightarrow> 'a cache_service" where
  "setToL2 now key d t s =
     (let s1 = (if length (l2Cache s) \<ge> maxSize (l2 (cacheConfig s))
                then evictFromL2 s else s);
          entry = as_entry now t d
      in s1\<lparr>l2Cache := AList.update key entry (l2Cache s1)\<rparr>)"

definition getFromL2 ::
  "int \<Rightarrow> string \<Rightarrow> 'a cache_service \<Rightarrow> 'a jsdata option \<times> 'a cache_service" where
  "getFromL2 now key s =
     (case map_of (l2Cache s) key of
        None \<Rightarrow> (None, s\<lparr>l2Stats := (l2Stats s)\<lparr>misses := misses (l2Stats s) + 1\<rparr>\<rparr>)
      | Some entry \<Rightarrow>
          if isExpired now entry
          then (None, s\<lparr>l2Cache := AList.delete key (l2Cache s),
                         l2Stats := (l2Stats s)\<lparr>misses := misses (l2Stats s) + 1\<rparr>\<rparr>)
          else (Some (entry_data entry),
                s\<lparr>l2Cache :=
                     AList.update key
                       (Entry (entry_data entry) (entry_timestamp entry) (entry_ttl entry)
                          (entry_accessCount entry + 1))
                       (l2Cache s),
                   l2Stats := (l2Stats s)\<lparr>hits := hits (l2Stats s) + 1\<rparr>\<rparr>))"

subsection \<open>L3: least frequently used\<close>

text \<open>The loop of \<^verbatim>\<open>_evictFromL3\<close>: the first key with the smallest access count
  (\<open>None\<close> is the initial \<^verbatim>\<open>Infinity\<close> with \<^verbatim>\<open>leastUsedKey = null\<close>).\<close>

fun leastUsed :: "(string \<times> nat) option \<Rightarrow> (string \<times> 'a entry) list \<Rightarrow> (string \<times> nat) option" where
  "leastUsed best [] = best"
| "leastUsed best ((key, entry) # rest) =
     (case best of
        None \<Rightarrow> leastUsed (Some (key, entry_accessCount entry)) rest
      | Some (leastUsedKey, leastUsedCount) \<Rightarrow>
          if entry_accessCount entry < leastUsedCount
          then leastUsed (Some (key, entry_accessCount entry)) rest
          else leastUsed best rest)"

definition evictFromL3 :: "'a cache_service \<Rightarrow> 'a cache_service" where
  "evictFromL3 s =
     (case leastUsed None (l3Cache s) of
        None \<Rightarrow> s
      | Some (leastUsedKey, _) \<Rightarrow>
          if leastUsedKey \<noteq> []
          then s\<lparr>l3Cache := AList.delete leastUsedKey (l3Cache s),
                 l3Stats := (l3Stats s)\<lparr>evictions := evictions (l3Stats s) + 1\<rparr>\<rparr>
          else s)"

definition setToL3 ::
  "int \<Rightarrow> string \<Rightarrow> 'a jsdata \<Rightarrow> int \<Rightarrow> 'a cache_service \<Rightarrow> 'a cache_service" where
  "setToL3 now key d t s =
     (let s1 = (if length (l3Cache s) \<ge> maxSize (l3 (cacheConfig s))
                then evictFromL3 s else s);
          entry = as_entry now t d
      in s1\<lparr>l3Cache := AList.update key entry (l3Cache s1)\<rparr>)"

definition getFromL3 ::
  "int \<Rightarrow> string \<Rightarrow> 'a cache_service \<Rightarrow> 'a jsdata option \<times> 'a cache_service" where
  "getFromL3 now key s =
     (case map_of (l3Cache s) key of
        None \<Rightarrow> (None, s\<lparr>l3Stats := (l3Stats s)\<lparr>misses := misses (l3Stats s) + 1\<rparr>\<rparr>)
      | Some entry \<Rightarrow>
          if isExpired now entry
          then (None, s\<lparr>l3Cache := AList.delete key (l3Cache s),
                         l3Stats := (l3Stats s)\<lparr>misses := misses (l3Stats s) + 1\<rparr>\<rparr>)
          else (Some (entry_data entry),
                s\<lparr>l3Cache :=
                     AList.update key
                       (Entry (entry_data entry) (entry_timestamp entry) (entry_ttl entry)
                          (entry_accessCount entry + 1))
                       (l3Cache s),
                   l3Stats := (l3Stats s)\<lparr>hits := hits (l3Stats s) + 1\<rparr>\<rparr>))"

subsection \<open>The public operations\<close>

text \<open>\<^verbatim>\<open>ttl || dflt\<close> for the optional argument \<^verbatim>\<open>ttl = null\<close>.\<close>

definition ttl_or :: "int option \<Rightarrow> int \<Rightarrow> int" where
  "ttl_or t dflt = (case t of None \<Rightarrow> dflt | Some v \<Rightarrow> if v \<noteq> 0 then v else dflt)"

text \<open>\<^verbatim>\<open>async set(key, data, ttl = null)\<close> at time \<open>now\<close>; nothing in its body throws, and
  it resolves to \<^verbatim>\<open>true\<close>.\<close>

definition cache_set ::
  "int \<Rightarrow> string \<Rightarrow> 'a jsdata \<Rightarrow> int option \<Rightarrow> 'a cache_service \<Rightarrow> 'a cache_service" where
  "cache_set now key d t s =
     (let cfg = cacheConfig s;
          cacheEntry = Wrapped (Entry d now (ttl_or t (ttl (l1 cfg))) 0);
          s1 = (if enabled (l1 cfg) then setToL1 now key cacheEntry (ttl_or t (ttl (l1 cfg))) s else s);
          s2 = (if enabled (l2 cfg) then setToL2 now key cacheEntry (ttl_or t (ttl (l2 cfg))) s1 else s1);
          s3 = (if enabled (l3 cfg) then setToL3 now key cacheEntry (ttl_or t (ttl (l3 cfg))) s2 else s2)
      in s3)"

text \<open>\<^verbatim>\<open>async get(key)\<close> at time \<open>now\<close>: L1, then L2, then L3, with promotion.\<close>

definition cache_get ::
  "int \<Rightarrow> string \<Rightarrow> 'a cache_service \<Rightarrow> 'a jsdata option \<times> 'a cache_service" where
  "cache_get now key s =
     (let cfg = cacheConfig s;
          (r1, s1) = (if enabled (l1 cfg) then getFromL1 now key s else (None, s))
      in case r1 of
           Some l1Result \<Rightarrow> (Some l1Result, s1)
         | None \<Rightarrow>
             (let (r2, s2) = (if enabled (l2 cfg) then getFromL2 now key s1 else (None, s1))
              in case r2 of
                   Some l2Result \<Rightarrow>
                     (Some l2Result,
                      if enabled (l1 cfg) then setToL1 now key l2Result (ttl (l1 cfg)) s2 else s2)
                 | None \<Rightarrow>
                     (let (r3, s3) = (if enabled (l3 cfg) then getFromL3 now key s2 else (None, s2))
                      in case r3 of
                           Some l3Result \<Rightarrow>
                             (let s4 = (if enabled (l2 cfg)
                                        then setToL2 now key l3Result (ttl (l2 cfg)) s3 else s3);
                                  s5 = (if enabled (l1 cfg)
                                        then setToL1 now key l3Result (ttl (l1 cfg)) s4 else s4)
                              in (Some l3Result, s5))
                         | None \<Rightarrow> (None, s3))))"

text \<open>A fresh service, as the constructor leaves it, for a given cache configuration.\<close>

definition no_stats :: stats where
  "no_stats = \<lparr>hits = 0, misses = 0, evictions = 0\<rparr>"

definition new_CacheService :: "cache_config \<Rightarrow> 'a cache_service" where
  "new_CacheService cfg =
     \<lparr>cacheConfig = cfg,
      l1Cache = [], l1AccessOrder = [], l1Stats = no_stats,
      l2Cache = [], l2Stats = no_stats,
      l3Cache = [], l3Stats = no_stats,
      ttlTimers = []\<rparr>"

text \<open>The \<^verbatim>\<open>cache\<close> block of the production configuration (src/config/environment.js).\<close>

definition production_cache :: cache_config where
  "production_cache =
     \<lparr>l1 = \<lparr>enabled = True, maxSize = 5000, ttl = 900\<rparr>,
      l2 = \<lparr>enabled = True, maxSize = 25000, ttl = 7200\<rparr>,
      l3 = \<lparr>enabled = True, maxSize = 100000, ttl = 86400\<rparr>\<rparr>"

text \<open>An L1 level at capacity: two entries, capacity two.\<close>

definition full_l1 :: "string cache_service" where
  "full_l1 =
     \<lparr>cacheConfig =
        \<lparr>l1 = \<lparr>enabled = True, maxSize = 2, ttl = 60\<rparr>,
         l2 = \<lparr>enabled = False, maxSize = 0, ttl = 0\<rparr>,
         l3 = \<lparr>enabled = False, maxSize = 0, ttl = 0\<rparr>\<rparr>,
      l1Cache = [(''field:a'', Entry (Plain ''A'') 1000 60 0),
                 (''field:b'', Entry (Plain ''B'') 2000 60 0)],
      l1AccessOrder = [(''field:a'', 1000), (''field:b'', 2000)],
      l1Stats = no_stats,
      l2Cache = [], l2Stats = no_stats,
      l3Cache = [], l3Stats = no_stats,
      ttlTimers = [(''field:a'', 61000), (''field:b'', 62000)]\<rparr>"

section \<open>Retry with backoff: \<^verbatim>\<open>DataGolfClient._retryWithBackoff\<close> (src/services/dataGolfClient.js)\<close>

text \<open>
  What an attempt can reject with: no response at all, a timeout, or a response with a
  status outside 2xx. \<open>apiCall k\<close> is the outcome of the call made by attempt number
  \<open>k\<close> (the closure performs one HTTP request each time it is invoked).

  The result carries what the caller observes: the value returned or the error thrown,
  the attempts made, in order, and the delays between them: the values of \<^verbatim>\<open>delay\<close>
  (milliseconds) that the catch block computes, logs and hands to \<^verbatim>\<open>setTimeout\<close>, which
  sleeps \<open>timer_delay delay\<close>.

  The parameter \<^verbatim>\<open>attempt\<close> has the default 1, no caller passes it, and the recursive
  call passes \<^verbatim>\<open>attempt + 1\<close>: the attempt numbers are 1, 2, 3, \<dots> and the exponent
  \<^verbatim>\<open>attempt - 1\<close> is a natural number. The function is the method for \<open>attempt \<ge> 1\<close>; at
  0, which the program never passes, the source would compute \<^verbatim>\<open>retryDelay / 2\<close>.
\<close>

datatype failure = NetworkError | Timeout | HttpError nat

function retryWithBackoff ::
  "nat \<Rightarrow> int \<Rightarrow> (nat \<Rightarrow> failure + 'r) \<Rightarrow> nat \<Rightarrow> (failure + 'r) \<times> nat list \<times> int list" where
  "retryWithBackoff retryAttempts retryDelay apiCall attempt =
     (case apiCall attempt of
        Inr response \<Rightarrow> (Inr response, [attempt], [])
      | Inl error \<Rightarrow>
          if attempt \<ge> retryAttempts then (Inl error, [attempt], [])
          else (let delay = retryDelay * 2 ^ (attempt - 1);
                    (r, calls, delays) =
                       retryWithBackoff retryAttempts retryDelay apiCall (attempt + 1)
                in (r, attempt # calls, delay # delays)))"
  by pat_completeness auto
termination
  by (relation "measure (\<lambda>(retryAttempts, retryDelay, apiCall, attempt). retryAttempts - attempt)")
     auto

declare retryWithBackoff.simps [simp del]

section \<open>Circuit breaker: \<^verbatim>\<open>DataGolfService\<close> (services/dataGolfService.js)\<close>

datatype circuit_state = CLOSED | OPEN | HALF_OPEN

record circuit_breaker =
  state :: circuit_state
  failureCount :: nat
  lastFailureTime :: "int option"
  successCount :: nat
  threshold :: nat
  timeout :: int
  resetThreshold :: nat

text \<open>The breaker the constructor installs.\<close>

definition new_circuitBreaker :: circuit_breaker where
  "new_circuitBreaker =
     \<lparr>state = CLOSED, failureCount = 0, lastFailureTime = None, successCount = 0,
      threshold = 5, timeout = 60000, resetThreshold = 3\<rparr>"

text \<open>\<^verbatim>\<open>_checkCircuitBreaker()\<close> at time \<open>now\<close>: the answer and the breaker left. In the
  subtraction \<^verbatim>\<open>now - lastFailureTime\<close> the initial \<^verbatim>\<open>null\<close> counts as 0.\<close>

definition checkCircuitBreaker :: "int \<Rightarrow> circuit_breaker \<Rightarrow> bool \<times> circuit_breaker" where
  "checkCircuitBreaker now cb =
     (case state cb of
        CLOSED \<Rightarrow> (True, cb)
      | OPEN \<Rightarrow>
          if now - (case lastFailureTime cb of None \<Rightarrow> 0 | Some t \<Rightarrow> t) > timeout cb
          then (True, cb\<lparr>state := HALF_OPEN, successCount := 0\<rparr>)
          else (False, cb)
      | HALF_OPEN \<Rightarrow> (True, cb))"

definition recordSuccess :: "circuit_breaker \<Rightarrow> circuit_breaker" where
  "recordSuccess cb =
     (if state cb = HALF_OPEN
      then (let cb1 = cb\<lparr>successCount := successCount cb + 1\<rparr>
            in if successCount cb1 \<ge> resetThreshold cb1
               then cb1\<lparr>state := CLOSED, failureCount := 0\<rparr>
               else cb1)
      else if state cb = CLOSED then cb\<lparr>failureCount := 0\<rparr>
      else cb)"

definition recordFailure :: "int \<Rightarrow> circuit_breaker \<Rightarrow> circuit_breaker" where
  "recordFailure now cb =
     (let cb1 = cb\<lparr>failureCount := failureCount cb + 1, lastFailureTime := Some now\<rparr>
      in if failureCount cb1 \<ge> threshold cb1 then cb1\<lparr>state := OPEN\<rparr> else cb1)"

text \<open>Runs of calls: failures recorded at the given times, a number of successes, and
  admission checks made at the given times with no call completing in between (the
  requests admitted by such a run are in flight together).\<close>

fun failures :: "int list \<Rightarrow> circuit_breaker \<Rightarrow> circuit_breaker" where
  "failures [] cb = cb"
| "failures (t # ts) cb = failures ts (recordFailure t cb)"

fun successes :: "nat \<Rightarrow> circuit_breaker \<Rightarrow> circuit_breaker" where
  "successes 0 cb = cb"
| "successes (Suc n) cb = successes n (recordSuccess cb)"

fun admissions :: "int list \<Rightarrow> circuit_breaker \<Rightarrow> bool list \<times> circuit_breaker" where
  "admissions [] cb = ([], cb)"
| "admissions (t # ts) cb =
     (let (ok, cb1) = checkCircuitBreaker t cb;
          (oks, cb2) = admissions ts cb1
      in (ok # oks, cb2))"

text \<open>The breaker of the constructor after five failures, the last at 5 ms, and a first
  admission more than a minute later.\<close>

definition half_open_breaker :: circuit_breaker where
  "half_open_breaker =
     \<lparr>state = HALF_OPEN, failureCount = 5, lastFailureTime = Some 5, successCount = 0,
      threshold = 5, timeout = 60000, resetThreshold = 3\<rparr>"

section \<open>Response transformers: \<^verbatim>\<open>DataGolfClient._transform*Data\<close> (src/services/dataGolfClient.js)\<close>

text \<open>
  A response body is a parsed JSON value. Numbers are kept in any ring \<open>'n\<close> (the
  transformers copy numbers and test them against zero, nothing else); an object is the
  list of its properties, each name once. \<open>JUndefined\<close> is the value of a read of a
  missing property.
\<close>

datatype 'n json =
    JUndefined
  | JNull
  | JBool bool
  | JNum 'n
  | JStr string
  | JArr "'n json list"
  | JObj "(string \<times> 'n json) list"

text \<open>Truthiness, and \<^verbatim>\<open>a || b\<close>.\<close>

fun truthy :: "('n::ring_1) json \<Rightarrow> bool" where
  "truthy JUndefined = False"
| "truthy JNull = False"
| "truthy (JBool b) = b"
| "truthy (JNum n) = (n \<noteq> 0)"
| "truthy (JStr s) = (s \<noteq> [])"
| "truthy (JArr xs) = True"
| "truthy (JObj fs) = True"

definition js_or :: "('n::ring_1) json \<Rightarrow> 'n json \<Rightarrow> 'n json" where
  "js_or a b = (if truthy a then a else b)"

text \<open>
  A property read \<^verbatim>\<open>x.name\<close>. On \<^verbatim>\<open>null\<close> and \<^verbatim>\<open>undefined\<close> it throws a TypeError, which
  \<open>nullish\<close> guards; on any other value that is not an object with that property it gives
  \<^verbatim>\<open>undefined\<close> (none of the names the transformers read is defined on the prototype of
  an object, an array, a string, a number or a boolean).
\<close>

fun nullish :: "'n json \<Rightarrow> bool" where
  "nullish JUndefined = True"
| "nullish JNull = True"
| "nullish _ = False"

fun get_prop :: "'n json \<Rightarrow> string \<Rightarrow> 'n json" where
  "get_prop (JObj fs) name = (case map_of fs name of Some v \<Rightarrow> v | None \<Rightarrow> JUndefined)"
| "get_prop _ name = JUndefined"

text \<open>
  \<^verbatim>\<open>new Date()\<close> reads the wall clock. A reading is represented by what the transformers
  ask of it, \<^verbatim>\<open>toISOString()\<close> and \<^verbatim>\<open>getFullYear()\<close>; \<open>clock k\<close> is the reading that the
  \<open>k\<close>-th evaluation of \<^verbatim>\<open>new Date()\<close> during one call returns (counting from 0). A
  transformer of an item takes the clock and the number of readings made so far, and
  gives the transformed item and the number of readings made after it.
\<close>

record date =
  toISOString :: string
  getFullYear :: int

type_synonym clock = "nat \<Rightarrow> date"

text \<open>\<^verbatim>\<open>data.map(item => ({ ... }))\<close>: the items in order; the callback throws on an
  item that is \<^verbatim>\<open>null\<close>, at its first property read.\<close>

fun map_items ::
  "(clock \<Rightarrow> nat \<Rightarrow> 'n json \<Rightarrow> 'n json \<times> nat) \<Rightarrow> clock \<Rightarrow> nat \<Rightarrow> 'n json list
     \<Rightarrow> js_error + ('n json list \<times> nat)" where
  "map_items f clock i [] = Inr ([], i)"
| "map_items f clock i (x # xs) =
     (if nullish x then Inl TypeError
      else (let (y, j) = f clock i x
            in case map_items f clock j xs of
                 Inl e \<Rightarrow> Inl e
               | Inr (ys, k) \<Rightarrow> Inr (y # ys, k)))"

subsection \<open>\<^verbatim>\<open>_transformTournamentData\<close>\<close>

definition tournament_item :: "clock \<Rightarrow> nat \<Rightarrow> ('n::ring_1) json \<Rightarrow> 'n json \<times> nat" where
  "tournament_item clock i tournament =
     (JObj
        [(''id'', js_or (get_prop tournament ''dg_id'') (get_prop tournament ''id'')),
         (''name'', js_or (get_prop tournament ''event_name'') (get_prop tournament ''name'')),
         (''course'', js_or (get_prop tournament ''course'') JNull),
         (''startDate'',
            js_or (get_prop tournament ''event_start_date'') (get_prop tournament ''start_date'')),
         (''endDate'',
            js_or (get_prop tournament ''event_end_date'') (get_prop tournament ''end_date'')),
         (''season'', js_or (get_prop tournament ''calendar_year'') (get_prop tournament ''season'')),
         (''tour'', js_or (get_prop tournament ''tour'') (JStr ''PGA'')),
         (''status'', js_or (get_prop tournament ''event_status'') (JStr ''scheduled'')),
         (''purse'', js_or (get_prop tournament ''purse'') JNull),
         (''location'',
            JObj
              [(''city'', js_or (get_prop tournament ''city'') JNull),
               (''state'', js_or (get_prop tournament ''state'') JNull),
               (''country'', js_or (get_prop tournament ''country'') (JStr ''USA''))]),
         (''transformedAt'', JStr (toISOString (clock i)))],
      i + 1)"

definition transformTournamentData :: "clock \<Rightarrow> ('n::ring_1) json \<Rightarrow> js_error + 'n json" where
  "transformTournamentData clock data =
     (case data of
        JArr items \<Rightarrow>
          (case map_items tournament_item clock 0 items of
             Inl e \<Rightarrow> Inl e
           | Inr (tournaments, k) \<Rightarrow>
               Inr (JObj
                      [(''tournaments'', JArr tournaments),
                       (''metadata'',
                          JObj [(''count'', JNum (of_nat (length tournaments))),
                                (''transformedAt'', JStr (toISOString (clock k)))])]))
      | _ \<Rightarrow>
          Inr (JObj
                 [(''tournaments'', JArr []),
                  (''metadata'',
                     JObj [(''count'', JNum 0),
                           (''transformedAt'', JStr (toISOString (clock 0)))])]))"

subsection \<open>\<^verbatim>\<open>_transformRankingsData\<close>\<close>

definition ranking_item :: "clock \<Rightarrow> nat \<Rightarrow> ('n::ring_1) json \<Rightarrow> 'n json \<times> nat" where
  "ranking_item clock i player =
     (JObj
        [(''playerId'', js_or (get_prop player ''dg_id'') (get_prop player ''player_id'')),
         (''playerName'', js_or (get_prop player ''player_name'') (get_prop player ''name'')),
         (''rank'', js_or (get_prop player ''rank'') (get_prop player ''position'')),
         (''points'', js_or (get_prop player ''points'') (get_prop player ''total_points'')),
         (''averagePoints'', js_or (get_prop player ''avg_points'') JNull),
         (''eventsPlayed'', js_or (get_prop player ''events_played'') (JNum 0)),
         (''wins'', js_or (get_prop player ''wins'') (JNum 0)),
         (''top10s'', js_or (get_prop player ''top_10s'') (JNum 0)),
         (''earnings'', js_or (get_prop player ''earnings'') (JNum 0)),
         (''transformedAt'', JStr (toISOString (clock i)))],
      i + 1)"

definition transformRankingsData :: "clock \<Rightarrow> ('n::ring_1) json \<Rightarrow> js_error + 'n json" where
  "transformRankingsData clock data =
     (case data of
        JArr items \<Rightarrow>
          (case map_items ranking_item clock 0 items of
             Inl e \<Rightarrow> Inl e
           | Inr (rankings, k) \<Rightarrow>
               Inr (JObj
                      [(''rankings'', JArr rankings),
                       (''metadata'',
                          JObj [(''count'', JNum (of_nat (length rankings))),
                                (''transformedAt'', JStr (toISOString (clock k)))])]))
      | _ \<Rightarrow>
          Inr (JObj
                 [(''rankings'', JArr []),
                  (''metadata'',
                     JObj [(''count'', JNum 0),
                           (''transformedAt'', JStr (toISOString (clock 0)))])]))"

subsection \<open>\<^verbatim>\<open>_transformFieldData\<close>\<close>

definition field_item :: "clock \<Rightarrow> nat \<Rightarrow> ('n::ring_1) json \<Rightarrow> 'n json \<times> nat" where
  "field_item clock i player =
     (JObj
        [(''playerId'', js_or (get_prop player ''dg_id'') (get_prop player ''player_id'')),
         (''playerName'', js_or (get_prop player ''player_name'') (get_prop player ''name'')),
         (''status'', js_or (get_prop player ''status'') (JStr ''active'')),
         (''teeTime'', js_or (get_prop player ''tee_time'') JNull),
         (''group'', js_or (get_prop player ''group'') JNull),
         (''odds'', js_or (get_prop player ''odds'') JNull),
         (''ranking'', js_or (get_prop player ''owgr'') (get_prop player ''ranking'')),
         (''transformedAt'', JStr (toISOString (clock i)))],
      i + 1)"

definition transformFieldData :: "clock \<Rightarrow> ('n::ring_1) json \<Rightarrow> js_error + 'n json" where
  "transformFieldData clock data =
     (case data of
        JArr items \<Rightarrow>
          (case map_items field_item clock 0 items of
             Inl e \<Rightarrow> Inl e
           | Inr (field, k) \<Rightarrow>
               Inr (JObj
                      [(''field'', JArr field),
                       (''metadata'',
                          JObj [(''count'', JNum (of_nat (length field))),
                                (''transformedAt'', JStr (toISOString (clock k)))])]))
      | _ \<Rightarrow>
          Inr (JObj
                 [(''field'', JArr []),
                  (''metadata'',
                     JObj [(''count'', JNum 0),
                           (''transformedAt'', JStr (toISOString (clock 0)))])]))"

subsection \<open>\<^verbatim>\<open>_transformScoringData\<close>\<close>

text \<open>\<^verbatim>\<open>lastUpdated: score.last_updated || new Date().toISOString()\<close> reads the clock only
  when the item has no truthy \<^verbatim>\<open>last_updated\<close>.\<close>

definition scoring_item :: "clock \<Rightarrow> nat \<Rightarrow> ('n::ring_1) json \<Rightarrow> 'n json \<times> nat" where
  "scoring_item clock i score =
     (let (lastUpdated, j) =
            (if truthy (get_prop score ''last_updated'') then (get_prop score ''last_updated'', i)
             else (JStr (toISOString (clock i)), i + 1))
      in (JObj
            [(''playerId'', js_or (get_prop score ''dg_id'') (get_prop score ''player_id'')),
             (''playerName'', js_or (get_prop score ''player_name'') (get_prop score ''name'')),
             (''totalScore'', js_or (get_prop score ''total_score'') (get_prop score ''score'')),
             (''currentRound'', js_or (get_prop score ''current_round'') (JNum 1)),
             (''roundScores'', js_or (get_prop score ''round_scores'') (JArr [])),
             (''position'', js_or (get_prop score ''position'') (get_prop score ''rank'')),
             (''status'', js_or (get_prop score ''status'') (JStr ''active'')),
             (''holesCompleted'', js_or (get_prop score ''holes_completed'') (JNum 0)),
             (''lastUpdated'', lastUpdated),
             (''transformedAt'', JStr (toISOString (clock j)))],
          j + 1))"

definition transformScoringData :: "clock \<Rightarrow> ('n::ring_1) json \<Rightarrow> js_error + 'n json" where
  "transformScoringData clock data =
     (case data of
        JArr items \<Rightarrow>
          (case map_items scoring_item clock 0 items of
             Inl e \<Rightarrow> Inl e
           | Inr (scores, k) \<Rightarrow>
               Inr (JObj
                      [(''scores'', JArr scores),
                       (''metadata'',
                          JObj [(''count'', JNum (of_nat (length scores))),
                                (''transformedAt'', JStr (toISOString (clock k)))])]))
      | _ \<Rightarrow>
          Inr (JObj
                 [(''scores'', JArr []),
                  (''metadata'',
                     JObj [(''count'', JNum 0),
                           (''transformedAt'', JStr (toISOString (clock 0)))])]))"

subsection \<open>\<^verbatim>\<open>_transformPlayerStatsData\<close>\<close>

definition transformPlayerStatsData :: "clock \<Rightarrow> ('n::ring_1) json \<Rightarrow> js_error + 'n json" where
  "transformPlayerStatsData clock data =
     (if \<not> truthy data
      then Inr (JObj
                  [(''stats'', JObj []),
                   (''metadata'', JObj [(''transformedAt'', JStr (toISOString (clock 0)))])])
      else (let (season, j) =
                  (if truthy (get_prop data ''season'') then (get_prop data ''season'', 0)
                   else (JNum (of_int (getFullYear (clock 0))), 1))
            in Inr (JObj
                      [(''stats'',
                          JObj
                            [(''playerId'', js_or (get_prop data ''dg_id'') (get_prop data ''player_id'')),
                             (''playerName'', js_or (get_prop data ''player_name'') (get_prop data ''name'')),
                             (''season'', season),
                             (''drivingDistance'', js_or (get_prop data ''driving_distance'') JNull),
                             (''drivingAccuracy'', js_or (get_prop data ''driving_accuracy'') JNull),
                             (''greensInRegulation'', js_or (get_prop data ''gir'') JNull),
                             (''puttingAverage'', js_or (get_prop data ''putting_avg'') JNull),
                             (''scoringAverage'', js_or (get_prop data ''scoring_avg'') JNull),
                             (''eagles'', js_or (get_prop data ''eagles'') (JNum 0)),
                             (''birdies'', js_or (get_prop data ''birdies'') (JNum 0)),
                             (''pars'', js_or (get_prop data ''pars'') (JNum 0)),
                             (''bogeys'', js_or (get_prop data ''bogeys'') (JNum 0)),
                             (''doubleBogeys'', js_or (get_prop data ''double_bogeys'') (JNum 0)),
                             (''transformedAt'', JStr (toISOString (clock j)))]),
                       (''metadata'',
                          JObj [(''transformedAt'', JStr (toISOString (clock (j + 1))))])])))"

subsection \<open>\<^verbatim>\<open>_transformBettingOddsData\<close>\<close>

definition odds_item :: "clock \<Rightarrow> nat \<Rightarrow> ('n::ring_1) json \<Rightarrow> 'n json \<times> nat" where
  "odds_item clock i an_odd =
     (let (lastUpdated, j) =
            (if truthy (get_prop an_odd ''last_updated'') then (get_prop an_odd ''last_updated'', i)
             else (JStr (toISOString (clock i)), i + 1))
      in (JObj
            [(''playerId'', js_or (get_prop an_odd ''dg_id'') (get_prop an_odd ''player_id'')),
             (''playerName'', js_or (get_prop an_odd ''player_name'') (get_prop an_odd ''name'')),
             (''tournamentId'', js_or (get_prop an_odd ''tournament_id'') (get_prop an_odd ''event_id'')),
             (''bookmaker'', js_or (get_prop an_odd ''bookmaker'') (JStr ''unknown'')),
             (''odds'',
                JObj
                  [(''decimal'', js_or (get_prop an_odd ''decimal_odds'') JNull),
                   (''american'', js_or (get_prop an_odd ''american_odds'') JNull),
                   (''fractional'', js_or (get_prop an_odd ''fractional_odds'') JNull)]),
             (''impliedProbability'', js_or (get_prop an_odd ''implied_probability'') JNull),
             (''lastUpdated'', lastUpdated),
             (''transformedAt'', JStr (toISOString (clock j)))],
          j + 1))"

definition transformBettingOddsData :: "clock \<Rightarrow> ('n::ring_1) json \<Rightarrow> js_error + 'n json" where
  "transformBettingOddsData clock data =
     (case data of
        JArr items \<Rightarrow>
          (case map_items odds_item clock 0 items of
             Inl e \<Rightarrow> Inl e
           | Inr (odds, k) \<Rightarrow>
               Inr (JObj
                      [(''odds'', JArr odds),
                       (''metadata'',
                          JObj [(''count'', JNum (of_nat (length odds))),
                                (''transformedAt'', JStr (toISOString (clock k)))])]))
      | _ \<Rightarrow>
          Inr (JObj
                 [(''odds'', JArr []),
                  (''metadata'',
                     JObj [(''count'', JNum 0),
                           (''transformedAt'', JStr (toISOString (clock 0)))])]))"

subsection \<open>Comparing two normalized bodies\<close>

text \<open>
  The properties that a transformer takes from the clock are fixed by the raw body:
  \<open>transformedAt\<close> in every item and in the metadata; \<open>lastUpdated\<close> in the item of a
  raw score or a raw odd that has no truthy \<^verbatim>\<open>last_updated\<close>; \<open>season\<close> in the statistics
  of a raw body that has no truthy \<^verbatim>\<open>season\<close>.
\<close>

definition clock_props_plain :: "'n json \<Rightarrow> string list" where
  "clock_props_plain item = [''transformedAt'']"

definition clock_props_timed :: "('n::ring_1) json \<Rightarrow> string list" where
  "clock_props_timed item =
     (if truthy (get_prop item ''last_updated'') then [''transformedAt'']
      else [''lastUpdated'', ''transformedAt''])"

definition clock_props_stats :: "('n::ring_1) json \<Rightarrow> string list" where
  "clock_props_stats data =
     (if truthy (get_prop data ''season'') then [''transformedAt'']
      else [''season'', ''transformedAt''])"

text \<open>An object without its own properties of the given names. What the properties that
  stay hold, at any depth, is left as it is, and so is a value that is not an object.\<close>

fun drop_props :: "string list \<Rightarrow> 'n json \<Rightarrow> 'n json" where
  "drop_props names (JObj fs) = JObj (filter (\<lambda>(k, v). k \<notin> set names) fs)"
| "drop_props names v = v"

text \<open>The transformed items, each without the properties that the transformer took
  from the clock for the raw item at the same index; the list keeps its length.\<close>

fun mask_items :: "('n json \<Rightarrow> string list) \<Rightarrow> 'n json list \<Rightarrow> 'n json list \<Rightarrow> 'n json list" where
  "mask_items cp (r # rs) (x # xs) = drop_props (cp r) x # mask_items cp rs xs"
| "mask_items cp rs xs = xs"

text \<open>A function applied to the value of one property of an object.\<close>

definition on_prop :: "string \<Rightarrow> ('n json \<Rightarrow> 'n json) \<Rightarrow> 'n json \<Rightarrow> 'n json" where
  "on_prop name f body =
     (case body of
        JObj fs \<Rightarrow> JObj (map (\<lambda>(k, v). (k, if k = name then f v else v)) fs)
      | _ \<Rightarrow> body)"

definition raw_items :: "'n json \<Rightarrow> 'n json list" where
  "raw_items raw = (case raw of JArr rs \<Rightarrow> rs | _ \<Rightarrow> [])"

text \<open>The body of a list transformer without the properties taken from the clock: the
  items under \<open>field\<close>, each masked by its raw item, and \<open>metadata\<close> without
  \<open>transformedAt\<close>.\<close>

definition mask_list ::
  "string \<Rightarrow> ('n json \<Rightarrow> string list) \<Rightarrow> 'n json \<Rightarrow> 'n json \<Rightarrow> 'n json" where
  "mask_list field cp raw body =
     on_prop field
       (\<lambda>v. case v of JArr xs \<Rightarrow> JArr (mask_items cp (raw_items raw) xs) | _ \<Rightarrow> v)
       (on_prop ''metadata'' (drop_props [''transformedAt'']) body)"

text \<open>The same for the body of the player-statistics transformer.\<close>

definition mask_stats :: "('n::ring_1) json \<Rightarrow> 'n json \<Rightarrow> 'n json" where
  "mask_stats raw body =
     on_prop ''stats'' (drop_props (clock_props_stats raw))
       (on_prop ''metadata'' (drop_props [''transformedAt'']) body)"

text \<open>A function applied to the body that a transformer returns; an error stays.\<close>

definition on_body :: "('n json \<Rightarrow> 'n json) \<Rightarrow> js_error + 'n json \<Rightarrow> js_error + 'n json" where
  "on_body f r = (case r of Inl e \<Rightarrow> Inl e | Inr body \<Rightarrow> Inr (f body))"

text \<open>The list under a property of a body.\<close>

definition items_of :: "string \<Rightarrow> 'n json \<Rightarrow> 'n json list" where
  "items_of field body = (case get_prop body field of JArr xs \<Rightarrow> xs | _ \<Rightarrow> [])"

text \<open>Two clocks, one millisecond apart, and raw bodies: a tournament list, a list of
  scores of which the first has a \<^verbatim>\<open>last_updated\<close> and the second has none, a
  list of odds, and the statistics of a player.\<close>

definition clock_noon :: clock where
  "clock_noon = (\<lambda>k. \<lparr>toISOString = ''2025-04-10T12:00:00.000Z'', getFullYear = 2025\<rparr>)"

definition clock_noon_1ms :: clock where
  "clock_noon_1ms = (\<lambda>k. \<lparr>toISOString = ''2025-04-10T12:00:00.001Z'', getFullYear = 2025\<rparr>)"

definition raw_tournaments :: "int json" where
  "raw_tournaments =
     JArr [JObj [(''dg_id'', JNum 14), (''event_name'', JStr ''Masters Tournament''),
                 (''calendar_year'', JNum 2025)]]"

definition raw_scores :: "int json" where
  "raw_scores =
     JArr [JObj [(''dg_id'', JNum 7), (''total_score'', JNum (- 4)),
                 (''last_updated'', JStr ''2025-04-10T11:58:00.000Z'')],
           JObj [(''dg_id'', JNum 9), (''total_score'', JNum 2)]]"

definition raw_odds :: "int json" where
  "raw_odds =
     JArr [JObj [(''dg_id'', JNum 7), (''bookmaker'', JStr ''acme''),
                 (''last_updated'', JStr ''2025-04-10T11:58:00.000Z'')],
           JObj [(''dg_id'', JNum 9)]]"

definition raw_stats :: "int json" where
  "raw_stats = JObj [(''dg_id'', JNum 7), (''season'', JNum 2023), (''eagles'', JNum 3)]"

definition raw_stats_no_season :: "int json" where
  "raw_stats_no_season = JObj [(''dg_id'', JNum 7), (''eagles'', JNum 3)]"

text \<open>The bodies that the transformers return for them at the first clock.\<close>

definition scores_at_noon :: "int json" where
  "scores_at_noon =
     JObj
       [(''scores'',
           JArr [JObj
                   [(''playerId'', JNum 7),
                    (''playerName'', JUndefined),
                    (''totalScore'', JNum (- 4)),
                    (''currentRound'', JNum 1),
                    (''roundScores'', JArr []),
                    (''position'', JUndefined),
                    (''status'', JStr ''active''),
                    (''holesCompleted'', JNum 0),
                    (''lastUpdated'', JStr ''2025-04-10T11:58:00.000Z''),
                    (''transformedAt'', JStr ''2025-04-10T12:00:00.000Z'')],
                 JObj
                   [(''playerId'', JNum 9),
                    (''playerName'', JUndefined),
                    (''totalScore'', JNum 2),
                    (''currentRound'', JNum 1),
                    (''roundScores'', JArr []),
                    (''position'', JUndefined),
                    (''status'', JStr ''active''),
                    (''holesCompleted'', JNum 0),
                    (''lastUpdated'', JStr ''2025-04-10T12:00:00.000Z''),
                    (''transformedAt'', JStr ''2025-04-10T12:00:00.000Z'')]]),
        (''metadata'',
           JObj [(''count'', JNum 2),
                 (''transformedAt'', JStr ''2025-04-10T12:00:00.000Z'')])]"

definition odds_at_noon :: "int json" where
  "odds_at_noon =
     JObj
       [(''odds'',
           JArr [JObj
                   [(''playerId'', JNum 7),
                    (''playerName'', JUndefined),
                    (''tournamentId'', JUndefined),
                    (''bookmaker'', JStr ''acme''),
                    (''odds'',
                       JObj [(''decimal'', JNull), (''american'', JNull),
                             (''fractional'', JNull)]),
                    (''impliedProbability'', JNull),
                    (''lastUpdated'', JStr ''2025-04-10T11:58:00.000Z''),
                    (''transformedAt'', JStr ''2025-04-10T12:00:00.000Z'')],
                 JObj
                   [(''playerId'', JNum 9),
                    (''playerName'', JUndefined),
                    (''tournamentId'', JUndefined),
                    (''bookmaker'', JStr ''unknown''),
                    (''odds'',
                       JObj [(''decimal'', JNull), (''american'', JNull),
                             (''fractional'', JNull)]),
                    (''impliedProbability'', JNull),
                    (''lastUpdated'', JStr ''2025-04-10T12:00:00.000Z''),
                    (''transformedAt'', JStr ''2025-04-10T12:00:00.000Z'')]]),
        (''metadata'',
           JObj [(''count'', JNum 2),
                 (''transformedAt'', JStr ''2025-04-10T12:00:00.000Z'')])]"

definition stats_at_noon :: "int json \<Rightarrow> int json" where
  "stats_at_noon season =
     JObj
       [(''stats'',
           JObj
             [(''playerId'', JNum 7),
              (''playerName'', JUndefined),
              (''season'', season),
              (''drivingDistance'', JNull),
              (''drivingAccuracy'', JNull),
              (''greensInRegulation'', JNull),
              (''puttingAverage'', JNull),
              (''scoringAverage'', JNull),
              (''eagles'', JNum 3),
              (''birdies'', JNum 0),
              (''pars'', JNum 0),
              (''bogeys'', JNum 0),
              (''doubleBogeys'', JNum 0),
              (''transformedAt'', JStr ''2025-04-10T12:00:00.000Z'')]),
        (''metadata'', JObj [(''transformedAt'', JStr ''2025-04-10T12:00:00.000Z'')])]"

section \<open>The request path: \<^verbatim>\<open>DataGolfService._executeWithCaching\<close> (services/dataGolfService.js)\<close>

record rate_limiter =
  requests :: "int list"
  maxRequests :: nat
  windowMs :: int

record metrics =
  totalRequests :: nat
  cacheHits :: nat
  cacheMisses :: nat
  errors :: nat

text \<open>The service object: its cache, breaker, limiter and counters. (The running average
  of response times, a floating-point number that no decision reads, is left out.)\<close>

record 'a service =
  cache :: "'a cache_service"
  circuitBreaker :: circuit_breaker
  rateLimiter :: rate_limiter
  metrics :: metrics

definition new_DataGolfService :: "cache_config \<Rightarrow> 'a service" where
  "new_DataGolfService cfg =
     \<lparr>cache = new_CacheService cfg,
      circuitBreaker = new_circuitBreaker,
      rateLimiter = \<lparr>requests = [], maxRequests = 100, windowMs = 60000\<rparr>,
      metrics = \<lparr>totalRequests = 0, cacheHits = 0, cacheMisses = 0, errors = 0\<rparr>\<rparr>"

text \<open>\<^verbatim>\<open>_checkRateLimit()\<close> at time \<open>now\<close>.\<close>

definition checkRateLimit :: "int \<Rightarrow> rate_limiter \<Rightarrow> bool \<times> rate_limiter" where
  "checkRateLimit now rl =
     (let kept = filter (\<lambda>timestamp. now - timestamp < windowMs rl) (requests rl)
      in if length kept \<ge> maxRequests rl
         then (False, rl\<lparr>requests := kept\<rparr>)
         else (True, rl\<lparr>requests := kept @ [now]\<rparr>))"

text \<open>
  \<^verbatim>\<open>_executeWithCaching\<close> is an \<^verbatim>\<open>async\<close> function: a call runs without interruption
  from one \<^verbatim>\<open>await\<close> to the next, and between two such segments the segments of other
  calls can run. A call is its arguments and the point where it stands:
  \<^item> \<open>NotStarted\<close>: not yet invoked;
  \<^item> \<open>AwaitingGet r\<close>: suspended at \<^verbatim>\<open>await this.cache.get(cacheKey)\<close>, the promise
    resolved with \<open>r\<close> (\<^verbatim>\<open>get\<close> contains no \<^verbatim>\<open>await\<close>, so its body has run when the caller
    suspends);
  \<^item> \<open>AwaitingApi\<close>: suspended at \<^verbatim>\<open>await apiCall()\<close>, the upstream fetch in flight;
  \<^item> \<open>AwaitingSet data\<close>: suspended at \<^verbatim>\<open>await this.cache.set(...)\<close>, whose body has run;
  \<^item> \<open>Returned data\<close> and \<open>Thrown e\<close>: settled.
  The data an upstream fetch resolves with is what a transformer returns, an object,
  which is truthy.
\<close>

datatype service_error = RateLimitExceeded | CircuitBreakerOpen | UpstreamError failure

datatype 'a pc =
    NotStarted
  | AwaitingGet "'a jsdata option"
  | AwaitingApi
  | AwaitingSet "'a jsdata"
  | Returned "'a jsdata"
  | Thrown service_error

record 'a call =
  cacheKey :: string
  useCache :: bool
  call_ttl :: "int option"
  pc :: "'a pc"

text \<open>The \<^verbatim>\<open>catch\<close> block: count the error, record a failure, rethrow.\<close>

definition catch_block ::
  "int \<Rightarrow> service_error \<Rightarrow> 'a call \<Rightarrow> 'a service \<Rightarrow> 'a call \<times> 'a service" where
  "catch_block now e c svc =
     (c\<lparr>pc := Thrown e\<rparr>,
      svc\<lparr>metrics := (metrics svc)\<lparr>errors := errors (metrics svc) + 1\<rparr>,
          circuitBreaker := recordFailure now (circuitBreaker svc)\<rparr>)"

text \<open>From the invocation to the first \<^verbatim>\<open>await\<close>.\<close>

definition begin_call :: "int \<Rightarrow> 'a call \<Rightarrow> 'a service \<Rightarrow> 'a call \<times> 'a service" where
  "begin_call now c svc =
     (let svc1 = svc\<lparr>metrics :=
                      (metrics svc)\<lparr>totalRequests := totalRequests (metrics svc) + 1\<rparr>\<rparr>;
          (allowed, rl) = checkRateLimit now (rateLimiter svc1);
          svc2 = svc1\<lparr>rateLimiter := rl\<rparr>
      in if \<not> allowed then catch_block now RateLimitExceeded c svc2
         else (let (admitted, cb) = checkCircuitBreaker now (circuitBreaker svc2);
                   svc3 = svc2\<lparr>circuitBreaker := cb\<rparr>
               in if \<not> admitted then catch_block now CircuitBreakerOpen c svc3
                  else if useCache c
                  then (let (cachedData, cache') = cache_get now (cacheKey c) (cache svc3)
                        in (c\<lparr>pc := AwaitingGet cachedData\<rparr>, svc3\<lparr>cache := cache'\<rparr>))
                  else (c\<lparr>pc := AwaitingApi\<rparr>, svc3)))"

text \<open>From \<^verbatim>\<open>await this.cache.get\<close> to the next \<^verbatim>\<open>await\<close> or to the return; and from
  \<^verbatim>\<open>await this.cache.set\<close> to the return.\<close>

definition resume_call :: "'a call \<Rightarrow> 'a service \<Rightarrow> 'a call \<times> 'a service" where
  "resume_call c svc =
     (case pc c of
        AwaitingGet (Some cachedData) \<Rightarrow>
          (c\<lparr>pc := Returned cachedData\<rparr>,
           svc\<lparr>metrics := (metrics svc)\<lparr>cacheHits := cacheHits (metrics svc) + 1\<rparr>,
               circuitBreaker := recordSuccess (circuitBreaker svc)\<rparr>)
      | AwaitingGet None \<Rightarrow>
          (c\<lparr>pc := AwaitingApi\<rparr>,
           svc\<lparr>metrics := (metrics svc)\<lparr>cacheMisses := cacheMisses (metrics svc) + 1\<rparr>\<rparr>)
      | AwaitingSet data \<Rightarrow>
          (c\<lparr>pc := Returned data\<rparr>,
           svc\<lparr>circuitBreaker := recordSuccess (circuitBreaker svc)\<rparr>)
      | _ \<Rightarrow> (c, svc))"

text \<open>The upstream fetch of the call settles at time \<open>now\<close>, with a failure or with data.\<close>

definition api_done ::
  "int \<Rightarrow> failure + 'a jsdata \<Rightarrow> 'a call \<Rightarrow> 'a service \<Rightarrow> 'a call \<times> 'a service" where
  "api_done now outcome c svc =
     (case pc c of
        AwaitingApi \<Rightarrow>
          (case outcome of
             Inl e \<Rightarrow> catch_block now (UpstreamError e) c svc
           | Inr data \<Rightarrow>
               if useCache c
               then (c\<lparr>pc := AwaitingSet data\<rparr>,
                     svc\<lparr>cache := cache_set now (cacheKey c) data (call_ttl c) (cache svc)\<rparr>)
               else (c\<lparr>pc := Returned data\<rparr>,
                     svc\<lparr>circuitBreaker := recordSuccess (circuitBreaker svc)\<rparr>))
      | _ \<Rightarrow> (c, svc))"

text \<open>The service with the calls made on it, and what can happen next: a call that has
  not started is invoked, a suspended call whose promise is resolved runs its next
  segment, or an upstream fetch settles.\<close>

record 'a system =
  service :: "'a service"
  calls :: "'a call list"

datatype 'a event =
    Begin nat int
  | Resume nat
  | ApiDone nat int "failure + 'a jsdata"

definition on_call ::
  "nat \<Rightarrow> ('a call \<Rightarrow> 'a service \<Rightarrow> 'a call \<times> 'a service) \<Rightarrow> 'a system \<Rightarrow> 'a system" where
  "on_call i segment sys =
     (if i < length (calls sys)
      then (let (c, svc) = segment (calls sys ! i) (service sys)
            in \<lparr>service = svc, calls = (calls sys)[i := c]\<rparr>)
      else sys)"

fun step :: "'a event \<Rightarrow> 'a system \<Rightarrow> 'a system" where
  "step (Begin i now) sys =
     on_call i (\<lambda>c svc. if pc c = NotStarted then begin_call now c svc else (c, svc)) sys"
| "step (Resume i) sys = on_call i resume_call sys"
| "step (ApiDone i now outcome) sys = on_call i (api_done now outcome) sys"

fun run :: "'a event list \<Rightarrow> 'a system \<Rightarrow> 'a system" where
  "run [] sys = sys"
| "run (e # es) sys = run es (step e sys)"

text \<open>The number of upstream fetches in flight for a cache key.\<close>

definition in_flight :: "string \<Rightarrow> 'a system \<Rightarrow> nat" where
  "in_flight key sys =
     length (filter (\<lambda>c. cacheKey c = key \<and> pc c = AwaitingApi) (calls sys))"

text \<open>\<open>n\<close> callers ask a fresh service for the same key.\<close>

definition new_call :: "string \<Rightarrow> int option \<Rightarrow> 'a call" where
  "new_call key t = \<lparr>cacheKey = key, useCache = True, call_ttl = t, pc = NotStarted\<rparr>"

definition callers :: "cache_config \<Rightarrow> nat \<Rightarrow> string \<Rightarrow> int option \<Rightarrow> 'a system" where
  "callers cfg n key t =
     \<lparr>service = new_DataGolfService cfg, calls = replicate n (new_call key t)\<rparr>"

text \<open>Every caller is invoked, one after the other, at time \<open>now\<close>; then every caller
  runs the segment that follows its cache probe. (This is the order in which Node.js runs
  \<open>n\<close> calls made in the same tick.)\<close>

definition concurrent_calls :: "nat \<Rightarrow> int \<Rightarrow> 'a event list" where
  "concurrent_calls n now = map (\<lambda>i. Begin i now) [0..<n] @ map Resume [0..<n]"

text \<open>One call with its fetch in flight and one call suspended after a missed probe,
  for the same key.\<close>

definition fetch_and_probe :: "string system" where
  "fetch_and_probe =
     \<lparr>service = new_DataGolfService production_cache,
      calls = [(new_call ''scoring:tournamentId:14'' (Some 30))\<lparr>pc := AwaitingApi\<rparr>,
               (new_call ''scoring:tournamentId:14'' (Some 30))\<lparr>pc := AwaitingGet None\<rparr>]\<rparr>"

text \<open>Nothing is cached at any level.\<close>

definition empty_cache :: "'a cache_service \<Rightarrow> bool" where
  "empty_cache s \<longleftrightarrow> l1Cache s = [] \<and> l2Cache s = [] \<and> l3Cache s = []"

text \<open>The service after \<open>k\<close> admissions at time \<open>now\<close>: nothing cached, breaker closed,
  \<open>k\<close> requests in the limiter's window.\<close>

definition quiet :: "int \<Rightarrow> nat \<Rightarrow> 'a service \<Rightarrow> bool" where
  "quiet now k svc \<longleftrightarrow>
     empty_cache (cache svc) \<and> state (circuitBreaker svc) = CLOSED
     \<and> requests (rateLimiter svc) = replicate k now
     \<and> maxRequests (rateLimiter svc) = 100 \<and> windowMs (rateLimiter svc) = 60000"

section \<open>Session tokens: \<^verbatim>\<open>encryptSessionData\<close>, \<^verbatim>\<open>decryptSessionData\<close> (src/middleware/sessionManager.js)\<close>

text \<open>
  The two functions are written over Node's \<^verbatim>\<open>crypto\<close>, \<^verbatim>\<open>Buffer\<close> and \<^verbatim>\<open>JSON\<close>, which
  are not part of the repository. They are parameters of the model, each standing for the
  calls the source makes:
  \<^item> \<open>pbkdf2Sync masterKey salt\<close> for \<^verbatim>\<open>crypto.pbkdf2Sync(masterKey, salt, 100000, 32, 'sha256')\<close>;
  \<^item> \<open>gcm_encrypt key aad plaintext\<close> for \<^verbatim>\<open>crypto.createCipher('aes-256-gcm', key)\<close>,
    \<^verbatim>\<open>setAAD(aad)\<close>, \<^verbatim>\<open>update\<close>, \<^verbatim>\<open>final\<close> and \<^verbatim>\<open>getAuthTag()\<close>: the ciphertext and the tag;
  \<^item> \<open>gcm_decrypt key aad tag ciphertext\<close> for \<^verbatim>\<open>crypto.createDecipher('aes-256-gcm', key)\<close>,
    \<^verbatim>\<open>setAAD(aad)\<close>, \<^verbatim>\<open>setAuthTag(tag)\<close>, \<^verbatim>\<open>update\<close> and \<^verbatim>\<open>final\<close>: the plaintext, or
    \<open>None\<close> when one of them throws;
  \<^item> \<open>stringify\<close> and \<open>parse\<close> for \<^verbatim>\<open>JSON.stringify\<close> and \<^verbatim>\<open>JSON.parse\<close> (\<open>None\<close>: it throws);
  \<^item> \<open>to_base64\<close> and \<open>from_base64\<close> for \<^verbatim>\<open>buffer.toString('base64')\<close> and
    \<^verbatim>\<open>Buffer.from(token, 'base64')\<close>.
  \<^verbatim>\<open>createCipher\<close> and \<^verbatim>\<open>createDecipher\<close> take the algorithm and a key and nothing else, so
  \<open>gcm_encrypt\<close> and \<open>gcm_decrypt\<close> have no argument for an initialisation vector.
\<close>

type_synonym bytes = "8 word list"

record 'r crypto =
  pbkdf2Sync :: "string \<Rightarrow> bytes \<Rightarrow> bytes"
  gcm_encrypt :: "bytes \<Rightarrow> bytes \<Rightarrow> bytes \<Rightarrow> bytes \<times> bytes"
  gcm_decrypt :: "bytes \<Rightarrow> bytes \<Rightarrow> bytes \<Rightarrow> bytes \<Rightarrow> bytes option"
  stringify :: "'r \<Rightarrow> bytes"
  parse :: "bytes \<Rightarrow> 'r option"
  to_base64 :: "bytes \<Rightarrow> string"
  from_base64 :: "string \<Rightarrow> bytes"

definition IV_LENGTH :: nat where "IV_LENGTH = 16"
definition SALT_LENGTH :: nat where "SALT_LENGTH = 32"
definition TAG_LENGTH :: nat where "TAG_LENGTH = 16"

text \<open>\<^verbatim>\<open>buffer.slice(start, end)\<close> and \<^verbatim>\<open>buffer.slice(start)\<close>; both stop at the end of the
  buffer.\<close>

definition slice :: "nat \<Rightarrow> nat \<Rightarrow> bytes \<Rightarrow> bytes" where
  "slice start end' buf = take (end' - start) (drop start buf)"

definition slice_from :: "nat \<Rightarrow> bytes \<Rightarrow> bytes" where
  "slice_from start buf = drop start buf"

text \<open>\<^verbatim>\<open>encryptSessionData(data, masterKey)\<close>, with the two results of
  \<^verbatim>\<open>generateSecureRandom\<close> as arguments. The initialisation vector goes into the token and
  nowhere else.\<close>

definition encryptSessionData :: "'r crypto \<Rightarrow> bytes \<Rightarrow> bytes \<Rightarrow> 'r \<Rightarrow> string \<Rightarrow> string" where
  "encryptSessionData P salt iv data masterKey =
     (let key = pbkdf2Sync P masterKey salt;
          jsonData = stringify P data;
          (encrypted, tag) = gcm_encrypt P key salt jsonData;
          combined = salt @ iv @ tag @ encrypted
      in to_base64 P combined)"

datatype session_error = InvalidSessionToken

text \<open>\<^verbatim>\<open>decryptSessionData(token, masterKey)\<close>. The initialisation vector is cut out of the
  token and not used.\<close>

definition decryptSessionData :: "'r crypto \<Rightarrow> string \<Rightarrow> string \<Rightarrow> session_error + 'r" where
  "decryptSessionData P token masterKey =
     (let combined = from_base64 P token;
          salt = slice 0 SALT_LENGTH combined;
          iv = slice SALT_LENGTH (SALT_LENGTH + IV_LENGTH) combined;
          tag = slice (SALT_LENGTH + IV_LENGTH) (SALT_LENGTH + IV_LENGTH + TAG_LENGTH) combined;
          encrypted = slice_from (SALT_LENGTH + IV_LENGTH + TAG_LENGTH) combined;
          key = pbkdf2Sync P masterKey salt
      in case gcm_decrypt P key salt tag encrypted of
           None \<Rightarrow> Inl InvalidSessionToken
         | Some decrypted \<Rightarrow>
             (case parse P decrypted of
                None \<Rightarrow> Inl InvalidSessionToken
              | Some data \<Rightarrow> Inr data))"

text \<open>What the library functions guarantee: decryption with the key, associated data and
  tag of an encryption gives the plaintext back, the tag has sixteen bytes, and parsing
  and decoding undo printing and encoding.\<close>

definition primitives_ok :: "'r crypto \<Rightarrow> bool" where
  "primitives_ok P \<longleftrightarrow>
     (\<forall>key aad plaintext.
         gcm_decrypt P key aad (snd (gcm_encrypt P key aad plaintext))
                     (fst (gcm_encrypt P key aad plaintext)) = Some plaintext
         \<and> length (snd (gcm_encrypt P key aad plaintext)) = TAG_LENGTH)
     \<and> (\<forall>data. parse P (stringify P data) = Some data)
     \<and> (\<forall>buf. from_base64 P (to_base64 P buf) = buf)"

text \<open>One bit of one byte of a buffer flipped.\<close>

definition flip_buffer_bit :: "nat \<Rightarrow> nat \<Rightarrow> bytes \<Rightarrow> bytes" where
  "flip_buffer_bit i b buf = buf[i := flip_bit b (buf ! i)]"

text \<open>A stand-in for the library, enough to show that the guarantees can be met: the
  text of a string is its bytes, the cipher is the identity with a keyed checksum for a
  tag, and the encoding writes each byte as one character.\<close>

definition standin_tag :: "bytes \<Rightarrow> bytes \<Rightarrow> bytes \<Rightarrow> bytes" where
  "standin_tag key aad plaintext = take 16 (key @ aad @ plaintext @ replicate 16 0)"

definition standin :: "string crypto" where
  "standin =
     \<lparr>pbkdf2Sync = (\<lambda>masterKey salt. map of_char masterKey @ salt),
      gcm_encrypt = (\<lambda>key aad plaintext. (plaintext, standin_tag key aad plaintext)),
      gcm_decrypt = (\<lambda>key aad tag ciphertext.
                       if tag = standin_tag key aad ciphertext then Some ciphertext else None),
      stringify = map of_char,
      parse = (\<lambda>buf. Some (map (\<lambda>w. char_of (unat w)) buf)),
      to_base64 = map (\<lambda>w. char_of (unat w)),
      from_base64 = map of_char\<rparr>"

section \<open>Properties of the cache key\<close>

lemma sort_distinct_set_eq:
  fixes xs ys :: "string list"
  assumes "distinct xs" "distinct ys" "set xs = set ys"
  shows "sort xs = sort ys"
proof -
  have "sort xs = sorted_list_of_set (set xs)"
    using assms(1) by (simp add: sorted_list_of_set_sort_remdups distinct_remdups_id)
  moreover have "sort ys = sorted_list_of_set (set ys)"
    using assms(2) by (simp add: sorted_list_of_set_sort_remdups distinct_remdups_id)
  ultimately show ?thesis using assms(3) by simp
qed

lemma paramString_order:
  assumes "distinct (map fst P1)" "distinct (map fst P2)" "set P1 = set P2"
  shows "paramString P1 = paramString P2"
proof -
  have m: "map_of P1 = map_of P2"
    using assms by (simp add: map_of_inject_set)
  have "set (map fst P1) = set (map fst P2)"
    using assms(3) by simp
  then have s: "sort (map fst P1) = sort (map fst P2)"
    using assms(1,2) by (rule sort_distinct_set_eq [rotated 2])
  have "param_entry P1 = param_entry P2"
    by (rule ext) (simp add: param_entry_def m)
  with s show ?thesis by (simp add: paramString_def)
qed

text \<open>
  C9. For every pattern and every two parameter objects that hold the same name/value
  pairs, inserted in whatever order, the generated cache key is the same.
\<close>

theorem generateKey_order_independent:
  assumes "distinct (map fst P1)" and "distinct (map fst P2)" and "set P1 = set P2"
  shows "generateKey endpoint P1 = generateKey endpoint P2"
  using paramString_order [OF assms] by (simp add: generateKey_def)

theorem generateKey_order_independent_witness:
  "generateKey ''tournament'' [(''tour'', ''pga''), (''season'', ''2024'')]
     = generateKey ''tournament'' [(''season'', ''2024''), (''tour'', ''pga'')]
   \<and> generateKey ''tournament'' [(''season'', ''2024''), (''tour'', ''pga'')]
     = Inr ''tournament:season:2024|tour:pga''"
proof -
  have "generateKey ''tournament'' [(''tour'', ''pga''), (''season'', ''2024'')]
          = generateKey ''tournament'' [(''season'', ''2024''), (''tour'', ''pga'')]"
    by (rule generateKey_order_independent) auto
  moreover have "generateKey ''tournament'' [(''season'', ''2024''), (''tour'', ''pga'')]
          = Inr ''tournament:season:2024|tour:pga''"
    by code_simp
  ultimately show ?thesis by simp
qed

lemma join_split:
  "join sep (xs @ y # zs)
     = concat (map (\<lambda>x. x @ sep) xs) @ y @ concat (map (\<lambda>z. sep @ z) zs)"
proof (induction xs)
  case Nil
  show ?case by (induction zs arbitrary: y) simp_all
next
  case (Cons x xs)
  then show ?case by (cases xs) simp_all
qed

lemma map_of_with_value:
  "map_of (with_value k v' P) a =
     (if a = k then (case map_of P a of None \<Rightarrow> None | Some _ \<Rightarrow> Some v') else map_of P a)"
  unfolding with_value_def by (induction P) (auto split: option.splits)

lemma fst_with_value: "map fst (with_value k v' P) = map fst P"
  unfolding with_value_def by (induction P) auto

lemma map_of_with_value_other:
  "a \<noteq> k \<Longrightarrow> map_of (with_value k v' P) a = map_of P a"
  by (simp add: map_of_with_value)

lemma handler_options_unread:
  assumes "name \<notin> set (query_names r)"
  shows "handler_options parseInt r (with_value name v q) = handler_options parseInt r q"
proof (cases r)
  case Tournaments
  with assms have "''season'' \<noteq> name" "''tour'' \<noteq> name" "''status'' \<noteq> name"
      "''limit'' \<noteq> name"
    by auto
  then show ?thesis by (simp add: Tournaments map_of_with_value_other)
next
  case Rankings
  with assms have "''season'' \<noteq> name" "''tour'' \<noteq> name" "''limit'' \<noteq> name"
    by auto
  then show ?thesis by (simp add: Rankings map_of_with_value_other)
next
  case Field
  with assms have "''round'' \<noteq> name" "''status'' \<noteq> name"
    by auto
  then show ?thesis by (simp add: Field map_of_with_value_other)
next
  case Scoring
  with assms have "''round'' \<noteq> name" "''live'' \<noteq> name"
    by auto
  then show ?thesis by (simp add: Scoring map_of_with_value_other)
next
  case PlayerStats
  with assms have "''season'' \<noteq> name" "''tour'' \<noteq> name"
    by auto
  then show ?thesis by (simp add: PlayerStats map_of_with_value_other)
next
  case BettingOdds
  with assms have "''tournamentId'' \<noteq> name" "''bookmaker'' \<noteq> name"
      "''market'' \<noteq> name"
    by auto
  then show ?thesis by (simp add: BettingOdds map_of_with_value_other)
qed

lemma request_cache_key_no_TypeError:
  "request_cache_key parseInt r req \<noteq> Inl (KeyError e)"
  by (cases r)
     (simp_all add: request_cache_key_def key_result_def generateKey_def baseKey_of_def
        keyPatterns_get_def keyPatterns_def Let_def)

text \<open>
  C4. On every route, the cache key of a request is independent of the value of every
  query parameter that the handler of the route does not copy into its options, and no
  handler copies a parameter that carries an API key, a token or a secret: changing only
  the value of such a parameter leaves the cache key of the request as it is.
\<close>

theorem request_cache_key_ignores_sensitive:
  "(name \<notin> set (query_names r) \<longrightarrow>
      request_cache_key parseInt r (req\<lparr>query := with_value name v (query req)\<rparr>)
        = request_cache_key parseInt r req)
   \<and> (name \<in> set [''key'', ''apiKey'', ''api_key'', ''apikey'', ''token'', ''secret'',
                      ''password'']
        \<longrightarrow> name \<notin> set (query_names r))"
proof (intro conjI impI)
  assume "name \<notin> set (query_names r)"
  then show "request_cache_key parseInt r (req\<lparr>query := with_value name v (query req)\<rparr>)
               = request_cache_key parseInt r req"
    by (simp add: request_cache_key_def handler_options_unread)
next
  assume "name \<in> set [''key'', ''apiKey'', ''api_key'', ''apikey'', ''token'', ''secret'',
                        ''password'']"
  then show "name \<notin> set (query_names r)"
    by (cases r) auto
qed

theorem request_cache_key_ignores_sensitive_witness:
  "request_cache_key (\<lambda>digits. digits) Tournaments
      \<lparr>path_id = [],
       query = [(''season'', ''2024''), (''limit'', ''10''), (''token'', ''t-2'')]\<rparr>
     = request_cache_key (\<lambda>digits. digits) Tournaments
         \<lparr>path_id = [],
          query = [(''season'', ''2024''), (''limit'', ''10''), (''token'', ''t-1'')]\<rparr>
   \<and> request_cache_key (\<lambda>digits. digits) Tournaments
         \<lparr>path_id = [],
          query = [(''season'', ''2024''), (''limit'', ''10''), (''token'', ''t-1'')]\<rparr>
       = Inr ''tournament:limit:10|season:2024''
   \<and> ''token'' \<notin> set (query_names Tournaments)"
proof -
  let ?req = "\<lparr>path_id = [],
               query = [(''season'', ''2024''), (''limit'', ''10''), (''token'', ''t-1'')]\<rparr>"
  have n: "''token'' \<notin> set (query_names Tournaments)"
    using request_cache_key_ignores_sensitive [of "''token''" Tournaments] by simp
  have "request_cache_key (\<lambda>digits. digits) Tournaments
          (?req\<lparr>query := with_value ''token'' ''t-2'' (query ?req)\<rparr>)
        = request_cache_key (\<lambda>digits. digits) Tournaments ?req"
    using request_cache_key_ignores_sensitive
            [where name = "''token''" and r = Tournaments and parseInt = "\<lambda>digits. digits"
               and req = ?req and v = "''t-2''"] n
    by blast
  then have a: "request_cache_key (\<lambda>digits. digits) Tournaments
      \<lparr>path_id = [],
       query = [(''season'', ''2024''), (''limit'', ''10''), (''token'', ''t-2'')]\<rparr>
     = request_cache_key (\<lambda>digits. digits) Tournaments ?req"
    by (simp add: with_value_def)
  have b: "request_cache_key (\<lambda>digits. digits) Tournaments ?req
             = Inr ''tournament:limit:10|season:2024''"
    by code_simp
  from a b n show ?thesis by simp
qed

text \<open>
  What makes the key independent is the handler, not \<^verbatim>\<open>generateKey\<close>, which removes
  nothing: every property of the object it is given enters the key as \<open>name:value\<close>, and
  another value for one property gives another key.
\<close>

lemma generateKey_depends_on_every_value:
  assumes d: "distinct (map fst P)" and m: "(k, v) \<in> set P" and n: "v' \<noteq> v"
  shows "generateKey endpoint (with_value k v' P) \<noteq> generateKey endpoint P"
proof -
  let ?P' = "with_value k v' P"
  let ?ks = "sort (map fst P)"
  have kin: "k \<in> set ?ks" using m by force
  then obtain pre post where ks: "?ks = pre @ k # post"
    by (meson split_list)
  have "distinct ?ks" using d by simp
  then have kpre: "k \<notin> set pre" and kpost: "k \<notin> set post"
    unfolding ks by auto
  have look: "map_of P k = Some v" using d m by simp
  have ek: "param_entry P k = k @ '':'' @ v" by (simp add: param_entry_def look)
  have ek': "param_entry ?P' k = k @ '':'' @ v'"
    by (simp add: param_entry_def map_of_with_value look)
  have other: "a \<noteq> k \<Longrightarrow> param_entry ?P' a = param_entry P a" for a
    by (simp add: param_entry_def map_of_with_value)
  have pre_eq: "map (param_entry ?P') pre = map (param_entry P) pre"
  proof (rule map_cong [OF refl])
    fix a assume "a \<in> set pre"
    with kpre have "a \<noteq> k" by auto
    then show "param_entry ?P' a = param_entry P a" by (rule other)
  qed
  have post_eq: "map (param_entry ?P') post = map (param_entry P) post"
  proof (rule map_cong [OF refl])
    fix a assume "a \<in> set post"
    with kpost have "a \<noteq> k" by auto
    then show "param_entry ?P' a = param_entry P a" by (rule other)
  qed
  define A where "A = concat (map (\<lambda>x. x @ ''|'') (map (param_entry P) pre))"
  define B where "B = concat (map (\<lambda>z. ''|'' @ z) (map (param_entry P) post))"
  have p: "paramString P = A @ (k @ '':'' @ v) @ B"
    unfolding paramString_def ks by (simp add: join_split ek A_def B_def)
  have p': "paramString ?P' = A @ (k @ '':'' @ v') @ B"
    unfolding paramString_def fst_with_value ks
    by (simp add: join_split ek' pre_eq post_eq A_def B_def del: map_map)
  show ?thesis
    using n by (simp add: generateKey_def p p')
qed


lemma pattern_of_registered:
  "map_of keyPatterns (pattern_of r) \<noteq> None \<and> map_of object_prototype (pattern_of r) = None"
  by (cases r) (simp_all add: keyPatterns_def object_prototype_def)



text \<open>A direct call with the name of an inherited property, which no caller of the
  repository makes, throws: \<^verbatim>\<open>keyPatterns['constructor']\<close> is the function \<^verbatim>\<open>Object\<close>,
  which has no \<^verbatim>\<open>slice\<close>.\<close>

lemma generateKey_inherited_name:
  "map_of keyPatterns ''constructor'' = None
   \<and> generateKey ''constructor'' [] = Inl TypeError"
  by code_simp

section \<open>Properties of the cache\<close>

lemma map_of_update_same: "map_of (AList.update k v al) k = Some v"
  by (simp add: AList.update_conv')

lemma evictFromL1_frame [simp]:
  "cacheConfig (evictFromL1 s) = cacheConfig s"
  "l2Cache (evictFromL1 s) = l2Cache s"
  "l3Cache (evictFromL1 s) = l3Cache s"
  by (simp_all add: evictFromL1_def split: list.splits prod.splits)

lemma evictFromL2_frame [simp]:
  "cacheConfig (evictFromL2 s) = cacheConfig s"
  "l1Cache (evictFromL2 s) = l1Cache s"
  "l3Cache (evictFromL2 s) = l3Cache s"
  by (simp_all add: evictFromL2_def split: list.splits prod.splits)

lemma evictFromL3_frame [simp]:
  "cacheConfig (evictFromL3 s) = cacheConfig s"
  "l1Cache (evictFromL3 s) = l1Cache s"
  "l2Cache (evictFromL3 s) = l2Cache s"
  by (simp_all add: evictFromL3_def split: option.splits prod.splits)

lemma setToL1_frame [simp]:
  "cacheConfig (setToL1 now key d t s) = cacheConfig s"
  "l2Cache (setToL1 now key d t s) = l2Cache s"
  "l3Cache (setToL1 now key d t s) = l3Cache s"
  by (simp_all add: setToL1_def setTTLTimer_def Let_def)

lemma setToL2_frame [simp]:
  "cacheConfig (setToL2 now key d t s) = cacheConfig s"
  "l1Cache (setToL2 now key d t s) = l1Cache s"
  "l3Cache (setToL2 now key d t s) = l3Cache s"
  by (simp_all add: setToL2_def Let_def)

lemma setToL3_frame [simp]:
  "cacheConfig (setToL3 now key d t s) = cacheConfig s"
  "l1Cache (setToL3 now key d t s) = l1Cache s"
  "l2Cache (setToL3 now key d t s) = l2Cache s"
  by (simp_all add: setToL3_def Let_def)

lemma setToL1_key: "map_of (l1Cache (setToL1 now key d t s)) key = Some (as_entry now t d)"
  by (simp add: setToL1_def setTTLTimer_def Let_def map_of_update_same)

lemma setToL2_key: "map_of (l2Cache (setToL2 now key d t s)) key = Some (as_entry now t d)"
  by (simp add: setToL2_def Let_def map_of_update_same)

lemma setToL3_key: "map_of (l3Cache (setToL3 now key d t s)) key = Some (as_entry now t d)"
  by (simp add: setToL3_def Let_def map_of_update_same)

lemma as_entry_Wrapped:
  "now \<noteq> 0 \<Longrightarrow> as_entry now' t (Wrapped (Entry d now t0 c)) = Entry d now t0 c"
  by (simp add: as_entry_def)

text \<open>
  What \<^verbatim>\<open>set\<close> leaves when no TTL is passed: the entry object is built once, with the
  default TTL of L1, and each setter stores that object as it is, whatever TTL the setter
  was handed. All enabled levels therefore hold an entry whose TTL is L1's default.
\<close>

lemma cache_set_stores_l1_ttl:
  assumes "now \<noteq> 0"
  shows "(enabled (l1 (cacheConfig s)) \<longrightarrow>
            map_of (l1Cache (cache_set now key d None s)) key
              = Some (Entry d now (ttl (l1 (cacheConfig s))) 0))
       \<and> (enabled (l2 (cacheConfig s)) \<longrightarrow>
            map_of (l2Cache (cache_set now key d None s)) key
              = Some (Entry d now (ttl (l1 (cacheConfig s))) 0))
       \<and> (enabled (l3 (cacheConfig s)) \<longrightarrow>
            map_of (l3Cache (cache_set now key d None s)) key
              = Some (Entry d now (ttl (l1 (cacheConfig s))) 0))"
  using assms
  by (simp add: cache_set_def Let_def ttl_or_def setToL1_key setToL2_key setToL3_key
        as_entry_Wrapped)

lemma production_set:
  "cache_set 1000 ''rankings:tour:pga'' (Plain body) None (new_CacheService production_cache)
     = \<lparr>cacheConfig = production_cache,
        l1Cache = [(''rankings:tour:pga'', Entry (Plain body) 1000 900 0)],
        l1AccessOrder = [(''rankings:tour:pga'', 1000)],
        l1Stats = no_stats,
        l2Cache = [(''rankings:tour:pga'', Entry (Plain body) 1000 900 0)],
        l2Stats = no_stats,
        l3Cache = [(''rankings:tour:pga'', Entry (Plain body) 1000 900 0)],
        l3Stats = no_stats,
        ttlTimers = [(''rankings:tour:pga'', 901000)]\<rparr>"
  by (simp add: cache_set_def new_CacheService_def production_cache_def setToL1_def
        setToL2_def setToL3_def as_entry_def ttl_or_def setTTLTimer_def timer_delay_def
        TIMEOUT_MAX_def Let_def)

text \<open>
  C2 at a failing input. Production configuration (default TTLs: L1 900 s, L2 7200 s,
  L3 86400 s), empty cache, \<^verbatim>\<open>set(key, body)\<close> at time 1000 ms with no TTL. The copies
  written to L2 and L3 carry the TTL 900 of L1; read 900.001 s later, both are found
  expired, deleted and reported as misses, although the defaults of L2 and L3 are 7200 s
  and 86400 s. The timer armed by the L1 setter is due at 901000 ms, and when it fires it
  deletes the key from all three levels.
\<close>

theorem cache_set_default_ttl_failing_input:
  "ttl (l2 production_cache) = 7200 \<and> ttl (l3 production_cache) = 86400
   \<and> map_of (l2Cache (cache_set 1000 ''rankings:tour:pga'' (Plain ''body'') None
                          (new_CacheService production_cache))) ''rankings:tour:pga''
       = Some (Entry (Plain ''body'') 1000 900 0)
   \<and> map_of (l3Cache (cache_set 1000 ''rankings:tour:pga'' (Plain ''body'') None
                          (new_CacheService production_cache))) ''rankings:tour:pga''
       = Some (Entry (Plain ''body'') 1000 900 0)
   \<and> fst (getFromL2 901001 ''rankings:tour:pga''
             (cache_set 1000 ''rankings:tour:pga'' (Plain ''body'') None
                (new_CacheService production_cache))) = None
   \<and> fst (getFromL3 901001 ''rankings:tour:pga''
             (cache_set 1000 ''rankings:tour:pga'' (Plain ''body'') None
                (new_CacheService production_cache))) = None
   \<and> ttlTimers (cache_set 1000 ''rankings:tour:pga'' (Plain ''body'') None
                   (new_CacheService production_cache)) = [(''rankings:tour:pga'', 901000)]
   \<and> l2Cache (fire_timer ''rankings:tour:pga''
                 (cache_set 1000 ''rankings:tour:pga'' (Plain ''body'') None
                    (new_CacheService production_cache))) = []
   \<and> l3Cache (fire_timer ''rankings:tour:pga''
                 (cache_set 1000 ''rankings:tour:pga'' (Plain ''body'') None
                    (new_CacheService production_cache))) = []"
proof -
  have c: "ttl (l2 production_cache) = 7200 \<and> ttl (l3 production_cache) = 86400"
    by (simp add: production_cache_def)
  have g2: "fst (getFromL2 901001 ''rankings:tour:pga''
             (cache_set 1000 ''rankings:tour:pga'' (Plain ''body'') None
                (new_CacheService production_cache))) = None"
    unfolding production_set by (simp add: getFromL2_def isExpired_def)
  have g3: "fst (getFromL3 901001 ''rankings:tour:pga''
             (cache_set 1000 ''rankings:tour:pga'' (Plain ''body'') None
                (new_CacheService production_cache))) = None"
    unfolding production_set by (simp add: getFromL3_def isExpired_def)
  have f2: "l2Cache (fire_timer ''rankings:tour:pga''
                 (cache_set 1000 ''rankings:tour:pga'' (Plain ''body'') None
                    (new_CacheService production_cache))) = []"
    unfolding production_set by (simp add: fire_timer_def cache_delete_def Let_def)
  have f3: "l3Cache (fire_timer ''rankings:tour:pga''
                 (cache_set 1000 ''rankings:tour:pga'' (Plain ''body'') None
                    (new_CacheService production_cache))) = []"
    unfolding production_set by (simp add: fire_timer_def cache_delete_def Let_def)
  show ?thesis
    using c g2 g3 f2 f3 by (simp add: production_set)
qed

text \<open>
  The L1 setter evicts whenever the level is at capacity and the first key of the access
  order is not the empty string; it never looks whether \<open>key\<close> is present.
\<close>

lemma setToL1_evicts_at_capacity:
  assumes "maxSize (l1 (cacheConfig s)) \<le> length (l1Cache s)"
    and "l1AccessOrder s = (oldestKey, t0) # rest" and "oldestKey \<noteq> []"
  shows "evictions (l1Stats (setToL1 now key d t s)) = evictions (l1Stats s) + 1"
  using assms by (simp add: setToL1_def evictFromL1_def setTTLTimer_def Let_def)

lemma full_l1_overwrite:
  "setToL1 3000 ''field:b'' (Plain ''B2'') 60 full_l1
     = full_l1\<lparr>l1Cache := [(''field:b'', Entry (Plain ''B2'') 3000 60 0)],
               l1AccessOrder := [(''field:b'', 3000)],
               l1Stats := \<lparr>hits = 0, misses = 0, evictions = 1\<rparr>,
               ttlTimers := [(''field:a'', 61000), (''field:b'', 63000)]\<rparr>"
  by (simp add: setToL1_def full_l1_def evictFromL1_def as_entry_def setTTLTimer_def
        timer_delay_def TIMEOUT_MAX_def no_stats_def Let_def)

text \<open>
  C5 at a failing input. L1 holds two entries and its capacity is two; the key
  \<open>field:b\<close> is already present. Writing \<open>field:b\<close> again evicts \<open>field:a\<close>, the first
  key of the access order, counts one eviction, and leaves L1 with one entry.
\<close>

theorem setToL1_overwrite_failing_input:
  "length (l1Cache full_l1) = maxSize (l1 (cacheConfig full_l1))
   \<and> map_of (l1Cache full_l1) ''field:b'' = Some (Entry (Plain ''B'') 2000 60 0)
   \<and> map_of (l1Cache full_l1) ''field:a'' = Some (Entry (Plain ''A'') 1000 60 0)
   \<and> l1Cache (setToL1 3000 ''field:b'' (Plain ''B2'') 60 full_l1)
       = [(''field:b'', Entry (Plain ''B2'') 3000 60 0)]
   \<and> map_of (l1Cache (setToL1 3000 ''field:b'' (Plain ''B2'') 60 full_l1)) ''field:a'' = None
   \<and> evictions (l1Stats (setToL1 3000 ''field:b'' (Plain ''B2'') 60 full_l1))
       = evictions (l1Stats full_l1) + 1"
proof -
  have a: "length (l1Cache full_l1) = maxSize (l1 (cacheConfig full_l1))
     \<and> map_of (l1Cache full_l1) ''field:b'' = Some (Entry (Plain ''B'') 2000 60 0)
     \<and> map_of (l1Cache full_l1) ''field:a'' = Some (Entry (Plain ''A'') 1000 60 0)
     \<and> evictions (l1Stats full_l1) = 0"
    by (simp add: full_l1_def no_stats_def)
  show ?thesis
    using a by (simp add: full_l1_overwrite)
qed

section \<open>Properties of the retry loop\<close>

lemma retryWithBackoff_all_fail:
  assumes "\<And>k. apiCall k = Inl (err k)"
  shows "retryWithBackoff R D apiCall a =
    (Inl (err (max a R)), [a..<max a R + 1], map (\<lambda>k. D * 2 ^ (k - 1)) [a..<max a R])"
proof (induction "R - a" arbitrary: a)
  case 0
  then have le: "R \<le> a" by simp
  then have m: "max a R = a" by simp
  show ?case
    by (subst retryWithBackoff.simps) (simp add: assms m le)
next
  case (Suc n)
  then have lt: "a < R" by simp
  then have m: "max a R = R" "max (a + 1) R = R" by simp_all
  have "n = R - (a + 1)" using Suc.hyps(2) by simp
  then have ih: "retryWithBackoff R D apiCall (a + 1) =
    (Inl (err R), [a + 1..<R + 1], map (\<lambda>k. D * 2 ^ (k - 1)) [a + 1..<R])"
    using Suc.hyps(1) [of "a + 1"] m by simp
  have u1: "[a..<R + 1] = a # [a + 1..<R + 1]" using lt by (simp add: upt_rec)
  have u2: "[a..<R] = a # [a + 1..<R]" using lt by (simp add: upt_rec)
  have nle: "\<not> R \<le> a" using lt by simp
  show ?case
    apply (subst retryWithBackoff.simps)
    apply (simp only: assms sum.case nle if_False Let_def ih prod.case m u1 u2 list.map)
    done
qed

text \<open>
  The pauses are the delays computed, as long as the longest of them is within the range
  of \<^verbatim>\<open>setTimeout\<close>; with the configured values (at most 5 attempts, at most 3000 ms)
  the longest is 24 s.
\<close>

lemma retryWithBackoff_pauses:
  assumes f: "\<And>k. apiCall k = Inl (err k)"
    and d: "1 \<le> retryDelay"
    and m: "retryDelay * 2 ^ (retryAttempts - 2) \<le> TIMEOUT_MAX"
  shows "map timer_delay (snd (snd (retryWithBackoff retryAttempts retryDelay apiCall 1)))
           = snd (snd (retryWithBackoff retryAttempts retryDelay apiCall 1))"
proof -
  have r: "snd (snd (retryWithBackoff retryAttempts retryDelay apiCall 1))
             = map (\<lambda>k. retryDelay * 2 ^ (k - 1)) [1..<max 1 retryAttempts]"
    by (simp add: retryWithBackoff_all_fail [of apiCall err, OF f])
  have "timer_delay (retryDelay * 2 ^ (k - 1)) = retryDelay * 2 ^ (k - 1)"
    if k: "k \<in> set [1..<max 1 retryAttempts]" for k
  proof -
    from k have "k - 1 \<le> retryAttempts - 2" by auto
    then have "(2::int) ^ (k - 1) \<le> 2 ^ (retryAttempts - 2)"
      by (intro power_increasing) simp_all
    with d have "retryDelay * 2 ^ (k - 1) \<le> retryDelay * 2 ^ (retryAttempts - 2)"
      by (intro mult_left_mono) simp_all
    with m have le: "retryDelay * 2 ^ (k - 1) \<le> TIMEOUT_MAX" by simp
    have "(1::int) \<le> 2 ^ (k - 1)" by simp
    with d have "1 * 1 \<le> retryDelay * 2 ^ (k - 1)"
      by (intro mult_mono) simp_all
    with le show ?thesis by (simp add: timer_delay_def)
  qed
  then show ?thesis unfolding r by (simp add: map_idI)
qed

text \<open>
  C6 (as the code has it). The loop never looks at the error: a failed attempt is
  followed by another one whenever the attempt number is below \<^verbatim>\<open>retryAttempts\<close>,
  whatever failed (a 4xx status other than 429 as much as a network error, a timeout, a
  5xx or a 429). When every attempt fails, the attempts \<open>1, \<dots>, max 1 retryAttempts\<close> are
  all made, attempt \<open>k\<close> is followed by a pause of \<open>retryDelay * 2 ^ (k - 1)\<close> ms, and the
  error of the last attempt is thrown.
\<close>

theorem retryWithBackoff_retries_every_failure:
  assumes "\<forall>k. apiCall k = Inl (err k)"
  shows "retryWithBackoff retryAttempts retryDelay apiCall 1 =
           (Inl (err (max 1 retryAttempts)),
            [1..<max 1 retryAttempts + 1],
            map (\<lambda>k. retryDelay * 2 ^ (k - 1)) [1..<max 1 retryAttempts])"
  using assms by (intro retryWithBackoff_all_fail) simp

theorem retryWithBackoff_retries_every_failure_witness:
  "retryWithBackoff 5 3000 (\<lambda>k. Inl (if k = 1 then HttpError 403 else Timeout) :: failure + unit) 1
     = (Inl Timeout, [1, 2, 3, 4, 5], [3000, 6000, 12000, 24000])"
proof -
  have "retryWithBackoff 5 3000
          (\<lambda>k. Inl (if k = 1 then HttpError 403 else Timeout) :: failure + unit) 1 =
        (Inl (if max 1 5 = (1::nat) then HttpError 403 else Timeout),
         [1..<max 1 5 + 1], map (\<lambda>k. 3000 * 2 ^ (k - 1)) [1..<max 1 5])"
    by (rule retryWithBackoff_retries_every_failure) simp
  moreover have "[1..<max 1 5 + 1] = [1, 2, 3, 4, 5::nat]" by code_simp
  moreover have "map (\<lambda>k. 3000 * 2 ^ (k - 1)) [1..<max 1 5] = [3000, 6000, 12000, 24000::int]"
    by code_simp
  ultimately show ?thesis by simp
qed

text \<open>
  C6 (as the specification states it) fails: with \<^verbatim>\<open>retryAttempts = 3\<close> and
  \<^verbatim>\<open>retryDelay = 1000\<close> (the default configuration), a request that is answered
  404 Not Found each time is attempted three times, with pauses of 1 s and 2 s, before
  the 404 is surfaced; the claim allows one attempt.
\<close>

theorem retryWithBackoff_404_counterexample:
  "retryWithBackoff 3 1000 (\<lambda>k. Inl (HttpError 404) :: failure + unit) 1
     = (Inl (HttpError 404), [1, 2, 3], [1000, 2000])
   \<and> length (fst (snd (retryWithBackoff 3 1000
                          (\<lambda>k. Inl (HttpError 404) :: failure + unit) 1))) \<noteq> 1"
  by code_simp

section \<open>Properties of the circuit breaker\<close>

lemma recordFailure_fields [simp]:
  "threshold (recordFailure t cb) = threshold cb"
  "timeout (recordFailure t cb) = timeout cb"
  "resetThreshold (recordFailure t cb) = resetThreshold cb"
  "failureCount (recordFailure t cb) = failureCount cb + 1"
  "lastFailureTime (recordFailure t cb) = Some t"
  by (simp_all add: recordFailure_def Let_def)

lemma recordFailure_state:
  "state (recordFailure t cb) =
     (if threshold cb \<le> failureCount cb + 1 then OPEN else state cb)"
  by (simp add: recordFailure_def Let_def)

lemma failures_snoc: "failures (ts @ [t]) cb = recordFailure t (failures ts cb)"
  by (induction ts arbitrary: cb) simp_all

lemma failures_fields [simp]:
  "threshold (failures ts cb) = threshold cb"
  "timeout (failures ts cb) = timeout cb"
  "failureCount (failures ts cb) = failureCount cb + length ts"
  by (induction ts arbitrary: cb) simp_all

lemma failures_open:
  assumes "ts \<noteq> []" and "threshold cb \<le> failureCount cb + length ts"
  shows "state (failures ts cb) = OPEN \<and> lastFailureTime (failures ts cb) = Some (last ts)"
proof -
  obtain us u where ts: "ts = us @ [u]"
    using assms(1) by (metis rev_exhaust)
  show ?thesis
    using assms(2) unfolding ts failures_snoc by (simp add: recordFailure_state)
qed

lemma recordSuccess_fields [simp]:
  "resetThreshold (recordSuccess cb) = resetThreshold cb"
  by (simp add: recordSuccess_def Let_def)

lemma successes_closed: "state cb = CLOSED \<Longrightarrow> state (successes n cb) = CLOSED"
  by (induction n arbitrary: cb) (simp_all add: recordSuccess_def)

lemma successes_half_open:
  assumes "state cb = HALF_OPEN" and "1 \<le> n"
    and "resetThreshold cb \<le> successCount cb + n"
  shows "state (successes n cb) = CLOSED"
  using assms
proof (induction n arbitrary: cb)
  case 0
  then show ?case by simp
next
  case (Suc n)
  show ?case
  proof (cases "resetThreshold cb \<le> successCount cb + 1")
    case True
    then have "state (recordSuccess cb) = CLOSED"
      using Suc.prems(1) by (simp add: recordSuccess_def Let_def)
    then show ?thesis by (simp add: successes_closed)
  next
    case False
    then have h: "state (recordSuccess cb) = HALF_OPEN"
      and c: "successCount (recordSuccess cb) = successCount cb + 1"
      using Suc.prems(1) by (simp_all add: recordSuccess_def Let_def)
    from False Suc.prems(3) have "1 \<le> n" by simp
    moreover have "resetThreshold (recordSuccess cb) \<le> successCount (recordSuccess cb) + n"
      using Suc.prems(3) c by simp
    ultimately have "state (successes n (recordSuccess cb)) = CLOSED"
      using Suc.IH h by blast
    then show ?thesis by simp
  qed
qed

lemma admissions_half_open:
  "state cb = HALF_OPEN \<Longrightarrow> admissions ts cb = (replicate (length ts) True, cb)"
  by (induction ts) (simp_all add: checkCircuitBreaker_def)

text \<open>
  C7 (as the code has it). After \<^verbatim>\<open>threshold\<close> recorded failures in a row the breaker
  is OPEN, and an admission check made no later than \<^verbatim>\<open>timeout\<close> ms after the last
  failure answers false and changes nothing. The first check made more than
  \<^verbatim>\<open>timeout\<close> ms after the last failure answers true and moves the breaker to HALF_OPEN
  with the success count at zero. In HALF_OPEN every admission check answers true: the
  breaker holds no count of trials, and any number of requests is admitted together.
  \<^verbatim>\<open>resetThreshold\<close> successes in a row in HALF_OPEN close the breaker.
\<close>

theorem circuit_breaker_cycle:
  "(1 \<le> threshold cb \<and> length ts = threshold cb \<longrightarrow>
      state (failures ts cb) = OPEN
      \<and> (now - last ts \<le> timeout cb \<longrightarrow>
           checkCircuitBreaker now (failures ts cb) = (False, failures ts cb))
      \<and> (now - last ts > timeout cb \<longrightarrow>
           checkCircuitBreaker now (failures ts cb)
             = (True, (failures ts cb)\<lparr>state := HALF_OPEN, successCount := 0\<rparr>)))
   \<and> (state hb = HALF_OPEN \<longrightarrow>
        admissions trials hb = (replicate (length trials) True, hb))
   \<and> (state hb = HALF_OPEN \<and> 1 \<le> resetThreshold hb \<longrightarrow>
        state (successes (resetThreshold hb) hb) = CLOSED)"
proof (intro conjI impI)
  assume a: "1 \<le> threshold cb \<and> length ts = threshold cb"
  then have ne: "ts \<noteq> []" by auto
  have op: "state (failures ts cb) = OPEN \<and> lastFailureTime (failures ts cb) = Some (last ts)"
    using failures_open [OF ne] a by simp
  then show "state (failures ts cb) = OPEN" by simp
  show "checkCircuitBreaker now (failures ts cb) = (False, failures ts cb)"
    if "now - last ts \<le> timeout cb"
    using op that by (simp add: checkCircuitBreaker_def)
  show "checkCircuitBreaker now (failures ts cb)
          = (True, (failures ts cb)\<lparr>state := HALF_OPEN, successCount := 0\<rparr>)"
    if "timeout cb < now - last ts"
    using op that by (simp add: checkCircuitBreaker_def)
next
  assume "state hb = HALF_OPEN"
  then show "admissions trials hb = (replicate (length trials) True, hb)"
    by (rule admissions_half_open)
next
  assume "state hb = HALF_OPEN \<and> 1 \<le> resetThreshold hb"
  then show "state (successes (resetThreshold hb) hb) = CLOSED"
    by (intro successes_half_open) simp_all
qed

lemma five_failures:
  "failures [1, 2, 3, 4, 5] new_circuitBreaker
     = \<lparr>state = OPEN, failureCount = 5, lastFailureTime = Some 5, successCount = 0,
        threshold = 5, timeout = 60000, resetThreshold = 3\<rparr>"
  by (simp add: new_circuitBreaker_def recordFailure_def Let_def)

theorem circuit_breaker_cycle_witness:
  "state (failures [1, 2, 3, 4, 5] new_circuitBreaker) = OPEN
   \<and> checkCircuitBreaker 6 (failures [1, 2, 3, 4, 5] new_circuitBreaker)
       = (False, failures [1, 2, 3, 4, 5] new_circuitBreaker)
   \<and> checkCircuitBreaker 60006 (failures [1, 2, 3, 4, 5] new_circuitBreaker)
       = (True, half_open_breaker)
   \<and> admissions [60007, 60008] half_open_breaker = ([True, True], half_open_breaker)
   \<and> state (successes 3 half_open_breaker) = CLOSED"
proof -
  have t: "threshold new_circuitBreaker = 5" "timeout new_circuitBreaker = 60000"
    by (simp_all add: new_circuitBreaker_def)
  have h: "state half_open_breaker = HALF_OPEN" "resetThreshold half_open_breaker = 3"
    by (simp_all add: half_open_breaker_def)
  have e: "(failures [1, 2, 3, 4, 5] new_circuitBreaker)\<lparr>state := HALF_OPEN, successCount := 0\<rparr>
             = half_open_breaker"
    unfolding five_failures by (simp add: half_open_breaker_def)
  have early: "state (failures [1, 2, 3, 4, 5] new_circuitBreaker) = OPEN
     \<and> checkCircuitBreaker 6 (failures [1, 2, 3, 4, 5] new_circuitBreaker)
         = (False, failures [1, 2, 3, 4, 5] new_circuitBreaker)"
    using circuit_breaker_cycle
            [of new_circuitBreaker "[1, 2, 3, 4, 5]" 6 half_open_breaker "[60007, 60008]"]
    by (simp add: t del: failures.simps admissions.simps successes.simps)
  have late: "checkCircuitBreaker 60006 (failures [1, 2, 3, 4, 5] new_circuitBreaker)
         = (True, half_open_breaker)
     \<and> admissions [60007, 60008] half_open_breaker = ([True, True], half_open_breaker)
     \<and> state (successes 3 half_open_breaker) = CLOSED"
    using circuit_breaker_cycle
            [of new_circuitBreaker "[1, 2, 3, 4, 5]" 60006 half_open_breaker "[60007, 60008]"]
    by (simp add: t h e del: failures.simps admissions.simps successes.simps)
  from early late show ?thesis by simp
qed

text \<open>
  C7 (as the specification states it) fails at the bound on trials. With the breaker of
  the constructor opened by five failures, the last at 5 ms, seven admission checks made
  from 60006 ms on, with no call completing in between, are all admitted: seven trial
  requests are in flight together, more than a bound \<^verbatim>\<open>max_trials = 5\<close>.
\<close>

theorem half_open_unbounded_counterexample:
  "fst (admissions [60006, 60007, 60008, 60009, 60010, 60011, 60012]
          (failures [1, 2, 3, 4, 5] new_circuitBreaker))
     = [True, True, True, True, True, True, True]
   \<and> \<not> length (filter (\<lambda>ok. ok)
                 (fst (admissions [60006, 60007, 60008, 60009, 60010, 60011, 60012]
                         (failures [1, 2, 3, 4, 5] new_circuitBreaker)))) \<le> 5"
proof -
  have "admissions [60006, 60007, 60008, 60009, 60010, 60011, 60012]
          (failures [1, 2, 3, 4, 5] new_circuitBreaker)
        = ([True, True, True, True, True, True, True], half_open_breaker)"
    unfolding five_failures
    by (simp add: checkCircuitBreaker_def half_open_breaker_def)
  then show ?thesis by simp
qed

section \<open>Properties of the transformers\<close>

lemma map_items_length:
  "map_items f c i xs = Inr (ys, k) \<Longrightarrow> length ys = length xs"
proof (induction xs arbitrary: i ys k)
  case Nil
  then show ?case by simp
next
  case (Cons x xs)
  obtain y j where f: "f c i x = (y, j)" by (cases "f c i x")
  from Cons.prems f obtain ys' where r: "map_items f c j xs = Inr (ys', k)" and y: "ys = y # ys'"
    by (auto split: if_splits sum.splits)
  from Cons.IH [OF r] y show ?case by simp
qed

lemma map_items_nth:
  "map_items f c i xs = Inr (ys, k) \<Longrightarrow> n < length xs
     \<Longrightarrow> \<exists>j. ys ! n = fst (f c j (xs ! n))"
proof (induction xs arbitrary: i ys k n)
  case Nil
  then show ?case by simp
next
  case (Cons x xs)
  obtain y j where f: "f c i x = (y, j)" by (cases "f c i x")
  from Cons.prems(1) f obtain ys' where r: "map_items f c j xs = Inr (ys', k)"
    and y: "ys = y # ys'"
    by (auto split: if_splits sum.splits)
  show ?case
  proof (cases n)
    case 0
    with f y have "ys ! n = fst (f c i ((x # xs) ! n))" by simp
    then show ?thesis by blast
  next
    case (Suc m)
    with Cons.prems(2) have "m < length xs" by simp
    from Cons.IH [OF r this] obtain j' where "ys' ! m = fst (f c j' (xs ! m))" by blast
    with Suc y have "ys ! n = fst (f c j' ((x # xs) ! n))" by simp
    then show ?thesis by blast
  qed
qed

lemma map_items_masked:
  assumes "\<And>x i1 i2. drop_props (cp x) (fst (f c1 i1 x)) = drop_props (cp x) (fst (f c2 i2 x))"
  shows "map_sum id (\<lambda>r. mask_items cp xs (fst r)) (map_items f c1 i1 xs)
       = map_sum id (\<lambda>r. mask_items cp xs (fst r)) (map_items f c2 i2 xs)"
proof (induction xs arbitrary: i1 i2)
  case Nil
  show ?case by simp
next
  case (Cons x xs)
  show ?case
  proof (cases "nullish x")
    case True
    then show ?thesis by simp
  next
    case False
    obtain y1 j1 where f1: "f c1 i1 x = (y1, j1)" by (cases "f c1 i1 x")
    obtain y2 j2 where f2: "f c2 i2 x = (y2, j2)" by (cases "f c2 i2 x")
    have y: "drop_props (cp x) y1 = drop_props (cp x) y2"
      using assms [of x i1 i2] f1 f2 by simp
    have ih: "map_sum id (\<lambda>r. mask_items cp xs (fst r)) (map_items f c1 j1 xs)
            = map_sum id (\<lambda>r. mask_items cp xs (fst r)) (map_items f c2 j2 xs)"
      by (rule Cons.IH)
    show ?thesis
    proof (cases "map_items f c1 j1 xs")
      case (Inl e1)
      with ih obtain e2 where "map_items f c2 j2 xs = Inl e2" "e1 = e2"
        by (cases "map_items f c2 j2 xs") auto
      with Inl False f1 f2 show ?thesis by simp
    next
      case (Inr r1)
      with ih obtain r2 where r2: "map_items f c2 j2 xs = Inr r2"
        and eq: "mask_items cp xs (fst r1) = mask_items cp xs (fst r2)"
        by (cases "map_items f c2 j2 xs") auto
      with Inr False f1 f2 y show ?thesis
        by (cases r1; cases r2) simp
    qed
  qed
qed

text \<open>The shape shared by the five list transformers: a list under one property and a
  metadata record with the count and the time.\<close>

lemma list_body_masked:
  assumes eq: "map_sum id (\<lambda>r. mask_items cp xs (fst r)) m1
             = map_sum id (\<lambda>r. mask_items cp xs (fst r)) m2"
    and l1: "\<And>ys k. m1 = Inr (ys, k) \<Longrightarrow> length ys = length xs"
    and l2: "\<And>ys k. m2 = Inr (ys, k) \<Longrightarrow> length ys = length xs"
    and fm: "field \<noteq> ''metadata''"
  shows "on_body (mask_list field cp (JArr xs))
           (case m1 of
              Inl e \<Rightarrow> Inl e
            | Inr (ys, k) \<Rightarrow>
                Inr (JObj [(field, JArr ys),
                           (''metadata'',
                              JObj [(''count'', JNum (of_nat (length ys))),
                                    (''transformedAt'', JStr (toISOString (c1 k)))])]))
       = on_body (mask_list field cp (JArr xs))
           (case m2 of
              Inl e \<Rightarrow> Inl e
            | Inr (ys, k) \<Rightarrow>
                Inr (JObj [(field, JArr ys),
                           (''metadata'',
                              JObj [(''count'', JNum (of_nat (length ys))),
                                    (''transformedAt'', JStr (toISOString (c2 k)))])]))"
proof (cases m1)
  case (Inl e1)
  with eq have "m2 = Inl e1" by (cases m2) auto
  with Inl show ?thesis by (simp add: on_body_def)
next
  case (Inr r1)
  with eq obtain r2 where r2: "m2 = Inr r2"
    and me: "mask_items cp xs (fst r1) = mask_items cp xs (fst r2)"
    by (cases m2) auto
  obtain ys1 k1 where p1: "r1 = (ys1, k1)" by (cases r1)
  obtain ys2 k2 where p2: "r2 = (ys2, k2)" by (cases r2)
  have "length ys1 = length xs" using l1 Inr p1 by simp
  moreover have "length ys2 = length xs" using l2 r2 p2 by simp
  ultimately have len: "length ys1 = length ys2" by simp
  from fm have mf: "''metadata'' \<noteq> field" by simp
  show ?thesis
    using Inr r2 p1 p2 me len fm mf
    by (simp add: on_body_def mask_list_def on_prop_def raw_items_def)
qed

lemma empty_body_masked:
  assumes "field \<noteq> ''metadata''"
  shows "mask_list field cp raw
           (JObj [(field, JArr []),
                  (''metadata'',
                     JObj [(''count'', JNum 0),
                           (''transformedAt'', JStr (toISOString (c1 0)))])])
       = mask_list field cp raw
           (JObj [(field, JArr []),
                  (''metadata'',
                     JObj [(''count'', JNum 0),
                           (''transformedAt'', JStr (toISOString (c2 0)))])])"
proof -
  from assms have "''metadata'' \<noteq> field" by simp
  with assms show ?thesis by (simp add: mask_list_def on_prop_def)
qed

lemma tournament_item_masked:
  "drop_props (clock_props_plain x) (fst (tournament_item c1 i1 x))
     = drop_props (clock_props_plain x) (fst (tournament_item c2 i2 x))"
  by (simp add: tournament_item_def clock_props_plain_def)

lemma ranking_item_masked:
  "drop_props (clock_props_plain x) (fst (ranking_item c1 i1 x))
     = drop_props (clock_props_plain x) (fst (ranking_item c2 i2 x))"
  by (simp add: ranking_item_def clock_props_plain_def)

lemma field_item_masked:
  "drop_props (clock_props_plain x) (fst (field_item c1 i1 x))
     = drop_props (clock_props_plain x) (fst (field_item c2 i2 x))"
  by (simp add: field_item_def clock_props_plain_def)

lemma scoring_item_masked:
  "drop_props (clock_props_timed x) (fst (scoring_item c1 i1 x))
     = drop_props (clock_props_timed x) (fst (scoring_item c2 i2 x))"
  by (simp add: scoring_item_def clock_props_timed_def)

lemma odds_item_masked:
  "drop_props (clock_props_timed x) (fst (odds_item c1 i1 x))
     = drop_props (clock_props_timed x) (fst (odds_item c2 i2 x))"
  by (simp add: odds_item_def clock_props_timed_def)

lemma transformTournamentData_masked:
  "on_body (mask_list ''tournaments'' clock_props_plain raw) (transformTournamentData c1 raw)
     = on_body (mask_list ''tournaments'' clock_props_plain raw) (transformTournamentData c2 raw)"
proof (cases raw)
  case (JArr items)
  show ?thesis
    unfolding transformTournamentData_def JArr json.case
    by (rule list_body_masked [OF map_items_masked [OF tournament_item_masked]])
       (simp_all add: map_items_length)
qed (simp_all add: transformTournamentData_def on_body_def empty_body_masked)

lemma transformRankingsData_masked:
  "on_body (mask_list ''rankings'' clock_props_plain raw) (transformRankingsData c1 raw)
     = on_body (mask_list ''rankings'' clock_props_plain raw) (transformRankingsData c2 raw)"
proof (cases raw)
  case (JArr items)
  show ?thesis
    unfolding transformRankingsData_def JArr json.case
    by (rule list_body_masked [OF map_items_masked [OF ranking_item_masked]])
       (simp_all add: map_items_length)
qed (simp_all add: transformRankingsData_def on_body_def empty_body_masked)

lemma transformFieldData_masked:
  "on_body (mask_list ''field'' clock_props_plain raw) (transformFieldData c1 raw)
     = on_body (mask_list ''field'' clock_props_plain raw) (transformFieldData c2 raw)"
proof (cases raw)
  case (JArr items)
  show ?thesis
    unfolding transformFieldData_def JArr json.case
    by (rule list_body_masked [OF map_items_masked [OF field_item_masked]])
       (simp_all add: map_items_length)
qed (simp_all add: transformFieldData_def on_body_def empty_body_masked)

lemma transformScoringData_masked:
  "on_body (mask_list ''scores'' clock_props_timed raw) (transformScoringData c1 raw)
     = on_body (mask_list ''scores'' clock_props_timed raw) (transformScoringData c2 raw)"
proof (cases raw)
  case (JArr items)
  show ?thesis
    unfolding transformScoringData_def JArr json.case
    by (rule list_body_masked [OF map_items_masked [OF scoring_item_masked]])
       (simp_all add: map_items_length)
qed (simp_all add: transformScoringData_def on_body_def empty_body_masked)

lemma transformBettingOddsData_masked:
  "on_body (mask_list ''odds'' clock_props_timed raw) (transformBettingOddsData c1 raw)
     = on_body (mask_list ''odds'' clock_props_timed raw) (transformBettingOddsData c2 raw)"
proof (cases raw)
  case (JArr items)
  show ?thesis
    unfolding transformBettingOddsData_def JArr json.case
    by (rule list_body_masked [OF map_items_masked [OF odds_item_masked]])
       (simp_all add: map_items_length)
qed (simp_all add: transformBettingOddsData_def on_body_def empty_body_masked)

lemma transformPlayerStatsData_masked:
  "on_body (mask_stats raw) (transformPlayerStatsData c1 raw)
     = on_body (mask_stats raw) (transformPlayerStatsData c2 raw)"
  by (simp add: transformPlayerStatsData_def on_body_def mask_stats_def on_prop_def
        clock_props_stats_def)

text \<open>What the properties with a default from the clock hold.\<close>

lemma scoring_item_lastUpdated:
  "get_prop (fst (scoring_item c j x)) ''lastUpdated''
     = (if truthy (get_prop x ''last_updated'') then get_prop x ''last_updated''
        else JStr (toISOString (c j)))"
  by (simp add: scoring_item_def)

lemma odds_item_lastUpdated:
  "get_prop (fst (odds_item c j x)) ''lastUpdated''
     = (if truthy (get_prop x ''last_updated'') then get_prop x ''last_updated''
        else JStr (toISOString (c j)))"
  by (simp add: odds_item_def)

lemma transformScoringData_item:
  assumes t: "transformScoringData c raw = Inr body" and i: "i < length (raw_items raw)"
  shows "\<exists>j. items_of ''scores'' body ! i = fst (scoring_item c j (raw_items raw ! i))"
proof -
  from i obtain rs where raw: "raw = JArr rs"
    by (cases raw) (simp_all add: raw_items_def)
  from t raw obtain ys k where m: "map_items scoring_item c 0 rs = Inr (ys, k)"
    and b: "items_of ''scores'' body = ys"
    by (auto simp: transformScoringData_def items_of_def split: sum.splits)
  from i raw have "i < length rs" by (simp add: raw_items_def)
  from map_items_nth [OF m this] b raw show ?thesis by (simp add: raw_items_def)
qed

lemma transformBettingOddsData_item:
  assumes t: "transformBettingOddsData c raw = Inr body" and i: "i < length (raw_items raw)"
  shows "\<exists>j. items_of ''odds'' body ! i = fst (odds_item c j (raw_items raw ! i))"
proof -
  from i obtain rs where raw: "raw = JArr rs"
    by (cases raw) (simp_all add: raw_items_def)
  from t raw obtain ys k where m: "map_items odds_item c 0 rs = Inr (ys, k)"
    and b: "items_of ''odds'' body = ys"
    by (auto simp: transformBettingOddsData_def items_of_def split: sum.splits)
  from i raw have "i < length rs" by (simp add: raw_items_def)
  from map_items_nth [OF m this] b raw show ?thesis by (simp add: raw_items_def)
qed

lemma transformPlayerStatsData_season:
  assumes "transformPlayerStatsData c raw = Inr body"
  shows "get_prop (get_prop body ''stats'') ''season''
           = (if truthy (get_prop raw ''season'') then get_prop raw ''season''
              else if truthy raw then JNum (of_int (getFullYear (c 0)))
              else JUndefined)"
proof -
  have "truthy (get_prop raw ''season'') \<Longrightarrow> truthy raw"
    by (cases raw) simp_all
  with assms show ?thesis
    by (auto simp: transformPlayerStatsData_def split: if_splits)
qed

text \<open>
  C8 (as the code has it). Every transformer stamps its output with the wall clock, so
  its result depends on the raw body and on the time of the call, and on nothing else.
  Two applications of the same transformer to the same raw body, at whatever times, throw
  the same error or return bodies that are identical once the properties taken from the
  clock are left out, each at its own place and nowhere else: \<open>transformedAt\<close> of every
  item and of the metadata, in all six; \<open>lastUpdated\<close> of the items whose raw item has
  no truthy \<^verbatim>\<open>last_updated\<close>, in the scoring and betting-odds transformers; \<open>season\<close> of
  the statistics when the raw body has no truthy \<^verbatim>\<open>season\<close>, in the player-statistics
  transformer. Whatever the raw body holds under these or any other names is compared.
  A truthy raw \<^verbatim>\<open>last_updated\<close> or \<^verbatim>\<open>season\<close> is copied unchanged into \<open>lastUpdated\<close>
  or \<open>season\<close>; without one, \<open>lastUpdated\<close> is a reading of the clock and \<open>season\<close>
  is the year of the first reading.
\<close>

theorem transformers_deterministic_up_to_clock:
  fixes raw :: "('n::ring_1) json" and c1 c2 :: clock
  shows
  "on_body (mask_list ''tournaments'' clock_props_plain raw) (transformTournamentData c1 raw)
     = on_body (mask_list ''tournaments'' clock_props_plain raw) (transformTournamentData c2 raw)
   \<and> on_body (mask_list ''rankings'' clock_props_plain raw) (transformRankingsData c1 raw)
       = on_body (mask_list ''rankings'' clock_props_plain raw) (transformRankingsData c2 raw)
   \<and> on_body (mask_list ''field'' clock_props_plain raw) (transformFieldData c1 raw)
       = on_body (mask_list ''field'' clock_props_plain raw) (transformFieldData c2 raw)
   \<and> on_body (mask_list ''scores'' clock_props_timed raw) (transformScoringData c1 raw)
       = on_body (mask_list ''scores'' clock_props_timed raw) (transformScoringData c2 raw)
   \<and> on_body (mask_stats raw) (transformPlayerStatsData c1 raw)
       = on_body (mask_stats raw) (transformPlayerStatsData c2 raw)
   \<and> on_body (mask_list ''odds'' clock_props_timed raw) (transformBettingOddsData c1 raw)
       = on_body (mask_list ''odds'' clock_props_timed raw) (transformBettingOddsData c2 raw)
   \<and> (transformScoringData c1 raw = Inr scores \<and> i < length (raw_items raw) \<longrightarrow>
        (truthy (get_prop (raw_items raw ! i) ''last_updated'') \<longrightarrow>
           get_prop (items_of ''scores'' scores ! i) ''lastUpdated''
             = get_prop (raw_items raw ! i) ''last_updated'')
        \<and> (\<not> truthy (get_prop (raw_items raw ! i) ''last_updated'') \<longrightarrow>
             (\<exists>k. get_prop (items_of ''scores'' scores ! i) ''lastUpdated''
                    = JStr (toISOString (c1 k)))))
   \<and> (transformBettingOddsData c1 raw = Inr odds \<and> i < length (raw_items raw) \<longrightarrow>
        (truthy (get_prop (raw_items raw ! i) ''last_updated'') \<longrightarrow>
           get_prop (items_of ''odds'' odds ! i) ''lastUpdated''
             = get_prop (raw_items raw ! i) ''last_updated'')
        \<and> (\<not> truthy (get_prop (raw_items raw ! i) ''last_updated'') \<longrightarrow>
             (\<exists>k. get_prop (items_of ''odds'' odds ! i) ''lastUpdated''
                    = JStr (toISOString (c1 k)))))
   \<and> (transformPlayerStatsData c1 raw = Inr stats \<longrightarrow>
        (truthy (get_prop raw ''season'') \<longrightarrow>
           get_prop (get_prop stats ''stats'') ''season'' = get_prop raw ''season'')
        \<and> (truthy raw \<and> \<not> truthy (get_prop raw ''season'') \<longrightarrow>
             get_prop (get_prop stats ''stats'') ''season''
               = JNum (of_int (getFullYear (c1 0)))))"
proof (intro conjI impI)
  show "on_body (mask_list ''tournaments'' clock_props_plain raw) (transformTournamentData c1 raw)
     = on_body (mask_list ''tournaments'' clock_props_plain raw) (transformTournamentData c2 raw)"
    by (rule transformTournamentData_masked)
  show "on_body (mask_list ''rankings'' clock_props_plain raw) (transformRankingsData c1 raw)
       = on_body (mask_list ''rankings'' clock_props_plain raw) (transformRankingsData c2 raw)"
    by (rule transformRankingsData_masked)
  show "on_body (mask_list ''field'' clock_props_plain raw) (transformFieldData c1 raw)
       = on_body (mask_list ''field'' clock_props_plain raw) (transformFieldData c2 raw)"
    by (rule transformFieldData_masked)
  show "on_body (mask_list ''scores'' clock_props_timed raw) (transformScoringData c1 raw)
       = on_body (mask_list ''scores'' clock_props_timed raw) (transformScoringData c2 raw)"
    by (rule transformScoringData_masked)
  show "on_body (mask_stats raw) (transformPlayerStatsData c1 raw)
       = on_body (mask_stats raw) (transformPlayerStatsData c2 raw)"
    by (rule transformPlayerStatsData_masked)
  show "on_body (mask_list ''odds'' clock_props_timed raw) (transformBettingOddsData c1 raw)
       = on_body (mask_list ''odds'' clock_props_timed raw) (transformBettingOddsData c2 raw)"
    by (rule transformBettingOddsData_masked)
next
  assume a: "transformScoringData c1 raw = Inr scores \<and> i < length (raw_items raw)"
  then obtain j where j: "items_of ''scores'' scores ! i
                            = fst (scoring_item c1 j (raw_items raw ! i))"
    using transformScoringData_item by blast
  {
    assume "truthy (get_prop (raw_items raw ! i) ''last_updated'')"
    then show "get_prop (items_of ''scores'' scores ! i) ''lastUpdated''
                 = get_prop (raw_items raw ! i) ''last_updated''"
      by (simp add: j scoring_item_lastUpdated)
  }
  {
    assume "\<not> truthy (get_prop (raw_items raw ! i) ''last_updated'')"
    then have "get_prop (items_of ''scores'' scores ! i) ''lastUpdated''
                 = JStr (toISOString (c1 j))"
      by (simp add: j scoring_item_lastUpdated)
    then show "\<exists>k. get_prop (items_of ''scores'' scores ! i) ''lastUpdated''
                     = JStr (toISOString (c1 k))"
      by blast
  }
next
  assume a: "transformBettingOddsData c1 raw = Inr odds \<and> i < length (raw_items raw)"
  then obtain j where j: "items_of ''odds'' odds ! i
                            = fst (odds_item c1 j (raw_items raw ! i))"
    using transformBettingOddsData_item by blast
  {
    assume "truthy (get_prop (raw_items raw ! i) ''last_updated'')"
    then show "get_prop (items_of ''odds'' odds ! i) ''lastUpdated''
                 = get_prop (raw_items raw ! i) ''last_updated''"
      by (simp add: j odds_item_lastUpdated)
  }
  {
    assume "\<not> truthy (get_prop (raw_items raw ! i) ''last_updated'')"
    then have "get_prop (items_of ''odds'' odds ! i) ''lastUpdated''
                 = JStr (toISOString (c1 j))"
      by (simp add: j odds_item_lastUpdated)
    then show "\<exists>k. get_prop (items_of ''odds'' odds ! i) ''lastUpdated''
                     = JStr (toISOString (c1 k))"
      by blast
  }
next
  assume a: "transformPlayerStatsData c1 raw = Inr stats"
  {
    assume "truthy (get_prop raw ''season'')"
    then show "get_prop (get_prop stats ''stats'') ''season'' = get_prop raw ''season''"
      by (simp add: transformPlayerStatsData_season [OF a])
  }
  {
    assume "truthy raw \<and> \<not> truthy (get_prop raw ''season'')"
    then show "get_prop (get_prop stats ''stats'') ''season''
                 = JNum (of_int (getFullYear (c1 0)))"
      by (simp add: transformPlayerStatsData_season [OF a])
  }
qed

lemma tournaments_at_noon:
  "transformTournamentData clock_noon raw_tournaments =
     Inr (JObj
            [(''tournaments'',
                JArr [JObj
                        [(''id'', JNum 14),
                         (''name'', JStr ''Masters Tournament''),
                         (''course'', JNull),
                         (''startDate'', JUndefined),
                         (''endDate'', JUndefined),
                         (''season'', JNum 2025),
                         (''tour'', JStr ''PGA''),
                         (''status'', JStr ''scheduled''),
                         (''purse'', JNull),
                         (''location'',
                            JObj [(''city'', JNull), (''state'', JNull),
                                  (''country'', JStr ''USA'')]),
                         (''transformedAt'', JStr ''2025-04-10T12:00:00.000Z'')]]),
             (''metadata'',
                JObj [(''count'', JNum 1),
                      (''transformedAt'', JStr ''2025-04-10T12:00:00.000Z'')])])"
  by (simp add: transformTournamentData_def raw_tournaments_def tournament_item_def
        clock_noon_def js_or_def)

lemma tournaments_at_noon_1ms:
  "transformTournamentData clock_noon_1ms raw_tournaments =
     Inr (JObj
            [(''tournaments'',
                JArr [JObj
                        [(''id'', JNum 14),
                         (''name'', JStr ''Masters Tournament''),
                         (''course'', JNull),
                         (''startDate'', JUndefined),
                         (''endDate'', JUndefined),
                         (''season'', JNum 2025),
                         (''tour'', JStr ''PGA''),
                         (''status'', JStr ''scheduled''),
                         (''purse'', JNull),
                         (''location'',
                            JObj [(''city'', JNull), (''state'', JNull),
                                  (''country'', JStr ''USA'')]),
                         (''transformedAt'', JStr ''2025-04-10T12:00:00.001Z'')]]),
             (''metadata'',
                JObj [(''count'', JNum 1),
                      (''transformedAt'', JStr ''2025-04-10T12:00:00.001Z'')])])"
  by (simp add: transformTournamentData_def raw_tournaments_def tournament_item_def
        clock_noon_1ms_def js_or_def)



lemma transformScoringData_at_noon:
  "transformScoringData clock_noon raw_scores = Inr scores_at_noon"
  by (simp add: transformScoringData_def raw_scores_def scoring_item_def clock_noon_def
        js_or_def scores_at_noon_def)

lemma transformBettingOddsData_at_noon:
  "transformBettingOddsData clock_noon raw_odds = Inr odds_at_noon"
  by (simp add: transformBettingOddsData_def raw_odds_def odds_item_def clock_noon_def
        js_or_def odds_at_noon_def)

lemma transformPlayerStatsData_at_noon:
  "transformPlayerStatsData clock_noon raw_stats = Inr (stats_at_noon (JNum 2023))"
  by (simp add: transformPlayerStatsData_def raw_stats_def clock_noon_def js_or_def
        stats_at_noon_def)

lemma transformPlayerStatsData_no_season_at_noon:
  "transformPlayerStatsData clock_noon raw_stats_no_season = Inr (stats_at_noon (JNum 2025))"
  by (simp add: transformPlayerStatsData_def raw_stats_no_season_def clock_noon_def js_or_def
        stats_at_noon_def)

theorem transformers_deterministic_up_to_clock_witness:
  "on_body (mask_list ''scores'' clock_props_timed raw_scores)
       (transformScoringData clock_noon raw_scores)
     = on_body (mask_list ''scores'' clock_props_timed raw_scores)
         (transformScoringData clock_noon_1ms raw_scores)
   \<and> transformScoringData clock_noon raw_scores = Inr scores_at_noon
   \<and> length (raw_items raw_scores) = 2
   \<and> truthy (get_prop (raw_items raw_scores ! 0) ''last_updated'')
   \<and> get_prop (items_of ''scores'' scores_at_noon ! 0) ''lastUpdated''
       = JStr ''2025-04-10T11:58:00.000Z''
   \<and> \<not> truthy (get_prop (raw_items raw_scores ! 1) ''last_updated'')
   \<and> (\<exists>k. get_prop (items_of ''scores'' scores_at_noon ! 1) ''lastUpdated''
            = JStr (toISOString (clock_noon k)))
   \<and> transformBettingOddsData clock_noon raw_odds = Inr odds_at_noon
   \<and> length (raw_items raw_odds) = 2
   \<and> truthy (get_prop (raw_items raw_odds ! 0) ''last_updated'')
   \<and> get_prop (items_of ''odds'' odds_at_noon ! 0) ''lastUpdated''
       = JStr ''2025-04-10T11:58:00.000Z''
   \<and> \<not> truthy (get_prop (raw_items raw_odds ! 1) ''last_updated'')
   \<and> (\<exists>k. get_prop (items_of ''odds'' odds_at_noon ! 1) ''lastUpdated''
            = JStr (toISOString (clock_noon k)))
   \<and> transformPlayerStatsData clock_noon raw_stats = Inr (stats_at_noon (JNum 2023))
   \<and> truthy (get_prop raw_stats ''season'')
   \<and> get_prop (get_prop (stats_at_noon (JNum 2023)) ''stats'') ''season'' = JNum 2023
   \<and> transformPlayerStatsData clock_noon raw_stats_no_season
       = Inr (stats_at_noon (JNum 2025))
   \<and> truthy raw_stats_no_season \<and> \<not> truthy (get_prop raw_stats_no_season ''season'')
   \<and> get_prop (get_prop (stats_at_noon (JNum 2025)) ''stats'') ''season''
       = JNum (of_int (getFullYear (clock_noon 0)))"
proof -
  have l: "length (raw_items raw_scores) = 2" "length (raw_items raw_odds) = 2"
    by (simp_all add: raw_items_def raw_scores_def raw_odds_def)
  have s0: "truthy (get_prop (raw_items raw_scores ! 0) ''last_updated'')"
    and s0v: "get_prop (raw_items raw_scores ! 0) ''last_updated''
                = JStr ''2025-04-10T11:58:00.000Z''"
    and s1: "\<not> truthy (get_prop (raw_items raw_scores ! 1) ''last_updated'')"
    by (simp_all add: raw_items_def raw_scores_def)
  have o0: "truthy (get_prop (raw_items raw_odds ! 0) ''last_updated'')"
    and o0v: "get_prop (raw_items raw_odds ! 0) ''last_updated''
                = JStr ''2025-04-10T11:58:00.000Z''"
    and o1: "\<not> truthy (get_prop (raw_items raw_odds ! 1) ''last_updated'')"
    by (simp_all add: raw_items_def raw_odds_def)
  have p: "truthy (get_prop raw_stats ''season'')" "get_prop raw_stats ''season'' = JNum 2023"
    by (simp_all add: raw_stats_def)
  have q: "truthy raw_stats_no_season" "\<not> truthy (get_prop raw_stats_no_season ''season'')"
    by (simp_all add: raw_stats_no_season_def)
  show ?thesis
    using transformers_deterministic_up_to_clock
            [where raw = raw_scores and ?c1.0 = clock_noon and ?c2.0 = clock_noon_1ms
               and scores = scores_at_noon and i = 0]
          transformers_deterministic_up_to_clock
            [where raw = raw_scores and ?c1.0 = clock_noon and ?c2.0 = clock_noon_1ms
               and scores = scores_at_noon and i = 1]
          transformers_deterministic_up_to_clock
            [where raw = raw_odds and ?c1.0 = clock_noon and ?c2.0 = clock_noon_1ms
               and odds = odds_at_noon and i = 0]
          transformers_deterministic_up_to_clock
            [where raw = raw_odds and ?c1.0 = clock_noon and ?c2.0 = clock_noon_1ms
               and odds = odds_at_noon and i = 1]
          transformers_deterministic_up_to_clock
            [where raw = raw_stats and ?c1.0 = clock_noon and ?c2.0 = clock_noon_1ms
               and stats = "stats_at_noon (JNum 2023)"]
          transformers_deterministic_up_to_clock
            [where raw = raw_stats_no_season and ?c1.0 = clock_noon and ?c2.0 = clock_noon_1ms
               and stats = "stats_at_noon (JNum 2025)"]
          l s0 s0v s1 o0 o0v o1 p q
    by (simp add: transformScoringData_at_noon transformBettingOddsData_at_noon
          transformPlayerStatsData_at_noon transformPlayerStatsData_no_season_at_noon)
qed

text \<open>
  C8 (as the specification states it) fails: the same raw tournament list, transformed
  at two instants one millisecond apart, gives two different normalized bodies.
\<close>

theorem transformTournamentData_counterexample:
  "transformTournamentData clock_noon raw_tournaments
     \<noteq> transformTournamentData clock_noon_1ms raw_tournaments"
  by (simp add: tournaments_at_noon tournaments_at_noon_1ms)

section \<open>Properties of the request path\<close>

lemma run_append: "run (es @ fs) sys = run fs (run es sys)"
  by (induction es arbitrary: sys) simp_all

lemma replicate_update_next:
  assumes "k < n"
  shows "(replicate k b @ replicate (n - k) a)[k := b]
           = replicate (Suc k) b @ replicate (n - Suc k) a"
proof -
  from assms obtain m where m: "n - k = Suc m" "n - Suc k = m"
    by (metis Suc_diff_Suc)
  show ?thesis
    unfolding m by (simp add: list_update_append replicate_append_same)
qed

lemma replicate_nth_next:
  assumes "k < n"
  shows "(replicate k b @ replicate (n - k) a) ! k = a"
  using assms by (simp add: nth_append)

text \<open>A sweep: the events \<open>E 0, \<dots>, E (k - 1)\<close> each take one call from \<open>a\<close> to \<open>b\<close>,
  whatever the other calls are, while the service keeps an invariant.\<close>

lemma sweep:
  assumes st: "\<And>j svc cs. j < k \<Longrightarrow> Inv j svc \<Longrightarrow> j < length cs \<Longrightarrow> cs ! j = a \<Longrightarrow>
                 \<exists>svc'. step (E j) \<lparr>service = svc, calls = cs\<rparr>
                           = \<lparr>service = svc', calls = cs[j := b]\<rparr> \<and> Inv (Suc j) svc'"
    and "Inv 0 svc0" and "k \<le> n"
  shows "\<exists>svc'. run (map E [0..<k]) \<lparr>service = svc0, calls = replicate n a\<rparr>
                   = \<lparr>service = svc', calls = replicate k b @ replicate (n - k) a\<rparr>
                 \<and> Inv k svc'"
  using st assms(3)
proof (induction k)
  case 0
  show ?case using assms(2) by simp
next
  case (Suc k)
  have "\<exists>svc'. run (map E [0..<k]) \<lparr>service = svc0, calls = replicate n a\<rparr>
                   = \<lparr>service = svc', calls = replicate k b @ replicate (n - k) a\<rparr>
                 \<and> Inv k svc'"
  proof (rule Suc.IH)
    show "k \<le> n" using Suc.prems(2) by simp
    show "\<exists>svc'. step (E j) \<lparr>service = svc, calls = cs\<rparr>
                    = \<lparr>service = svc', calls = cs[j := b]\<rparr> \<and> Inv (Suc j) svc'"
      if "j < k" "Inv j svc" "j < length cs" "cs ! j = a" for j svc cs
      using Suc.prems(1) [of j svc cs] that by simp
  qed
  then obtain svc1 where r: "run (map E [0..<k]) \<lparr>service = svc0, calls = replicate n a\<rparr>
                   = \<lparr>service = svc1, calls = replicate k b @ replicate (n - k) a\<rparr>"
    and i: "Inv k svc1" by blast
  have kn: "k < n" using Suc.prems(2) by simp
  have "\<exists>svc'. step (E k) \<lparr>service = svc1, calls = replicate k b @ replicate (n - k) a\<rparr>
          = \<lparr>service = svc', calls = (replicate k b @ replicate (n - k) a)[k := b]\<rparr>
          \<and> Inv (Suc k) svc'"
    using kn by (intro Suc.prems(1) i replicate_nth_next) simp_all
  then obtain svc2 where
    s: "step (E k) \<lparr>service = svc1, calls = replicate k b @ replicate (n - k) a\<rparr>
          = \<lparr>service = svc2, calls = replicate (Suc k) b @ replicate (n - Suc k) a\<rparr>"
    and i2: "Inv (Suc k) svc2"
    using replicate_update_next [OF kn] by metis
  have "run (map E [0..<Suc k]) \<lparr>service = svc0, calls = replicate n a\<rparr>
          = \<lparr>service = svc2, calls = replicate (Suc k) b @ replicate (n - Suc k) a\<rparr>"
    by (simp add: run_append r s)
  with i2 show ?case by blast
qed

subsection \<open>A probe of an empty cache misses and leaves it empty\<close>

lemma getFromL1_empty:
  "empty_cache s \<Longrightarrow> fst (getFromL1 now key s) = None \<and> empty_cache (snd (getFromL1 now key s))"
  by (simp add: empty_cache_def getFromL1_def)

lemma getFromL2_empty:
  "empty_cache s \<Longrightarrow> fst (getFromL2 now key s) = None \<and> empty_cache (snd (getFromL2 now key s))"
  by (simp add: empty_cache_def getFromL2_def)

lemma getFromL3_empty:
  "empty_cache s \<Longrightarrow> fst (getFromL3 now key s) = None \<and> empty_cache (snd (getFromL3 now key s))"
  by (simp add: empty_cache_def getFromL3_def)

lemma cache_get_empty:
  assumes "empty_cache s"
  shows "fst (cache_get now key s) = None \<and> empty_cache (snd (cache_get now key s))"
proof -
  define s1 where "s1 = (if enabled (l1 (cacheConfig s)) then snd (getFromL1 now key s) else s)"
  define s2 where "s2 = (if enabled (l2 (cacheConfig s)) then snd (getFromL2 now key s1) else s1)"
  define s3 where "s3 = (if enabled (l3 (cacheConfig s)) then snd (getFromL3 now key s2) else s2)"
  have e1: "empty_cache s1" using assms getFromL1_empty [OF assms, of now key] by (simp add: s1_def)
  have e2: "empty_cache s2" using e1 getFromL2_empty [OF e1, of now key] by (simp add: s2_def)
  have e3: "empty_cache s3" using e2 getFromL3_empty [OF e2, of now key] by (simp add: s3_def)
  have r1: "(if enabled (l1 (cacheConfig s)) then getFromL1 now key s else (None, s)) = (None, s1)"
    using getFromL1_empty [OF assms, of now key] by (simp add: s1_def prod_eq_iff)
  have r2: "(if enabled (l2 (cacheConfig s)) then getFromL2 now key s1 else (None, s1)) = (None, s2)"
    using getFromL2_empty [OF e1, of now key] by (simp add: s2_def prod_eq_iff)
  have r3: "(if enabled (l3 (cacheConfig s)) then getFromL3 now key s2 else (None, s2)) = (None, s3)"
    using getFromL3_empty [OF e2, of now key] by (simp add: s3_def prod_eq_iff)
  have "cache_get now key s = (None, s3)"
    by (simp only: cache_get_def Let_def r1 r2 r3 prod.case option.case)
  with e3 show ?thesis by simp
qed

subsection \<open>Callers of a quiet service\<close>

lemma quiet_new: "quiet now 0 (new_DataGolfService cfg)"
  by (simp add: quiet_def new_DataGolfService_def new_CacheService_def empty_cache_def
        new_circuitBreaker_def)

lemma checkRateLimit_quiet:
  assumes "requests rl = replicate k now" "maxRequests rl = 100" "windowMs rl = 60000"
    and "k < 100"
  shows "checkRateLimit now rl = (True, rl\<lparr>requests := replicate (Suc k) now\<rparr>)"
  using assms by (simp add: checkRateLimit_def replicate_append_same)

lemma begin_call_quiet:
  assumes q: "quiet now k svc" and k: "k < 100" and u: "useCache c"
  shows "\<exists>svc'. begin_call now c svc = (c\<lparr>pc := AwaitingGet None\<rparr>, svc')
                 \<and> quiet now (Suc k) svc'"
proof -
  define svc1 where
    "svc1 = svc\<lparr>metrics := (metrics svc)\<lparr>totalRequests := totalRequests (metrics svc) + 1\<rparr>\<rparr>"
  define svc2 where
    "svc2 = svc1\<lparr>rateLimiter := (rateLimiter svc1)\<lparr>requests := replicate (Suc k) now\<rparr>\<rparr>"
  have rl: "checkRateLimit now (rateLimiter svc1)
              = (True, (rateLimiter svc1)\<lparr>requests := replicate (Suc k) now\<rparr>)"
    using q k by (intro checkRateLimit_quiet) (simp_all add: svc1_def quiet_def)
  have cb: "checkCircuitBreaker now (circuitBreaker svc2) = (True, circuitBreaker svc2)"
    using q by (simp add: checkCircuitBreaker_def svc2_def svc1_def quiet_def)
  have ec: "empty_cache (cache svc2)"
    using q by (simp add: svc2_def svc1_def quiet_def)
  obtain r s' where g: "cache_get now (cacheKey c) (cache svc2) = (r, s')"
    by (cases "cache_get now (cacheKey c) (cache svc2)")
  with cache_get_empty [OF ec, of now "cacheKey c"] have r: "r = None" and es: "empty_cache s'"
    by simp_all
  have same: "svc2\<lparr>circuitBreaker := circuitBreaker svc2\<rparr> = svc2" by simp
  have "begin_call now c svc = (c\<lparr>pc := AwaitingGet None\<rparr>, svc2\<lparr>cache := s'\<rparr>)"
    unfolding begin_call_def Let_def svc1_def [symmetric] rl prod.case
    unfolding svc2_def [symmetric] cb prod.case same
    using u g r by simp
  moreover have "quiet now (Suc k) (svc2\<lparr>cache := s'\<rparr>)"
    using q es by (simp add: quiet_def svc2_def svc1_def)
  ultimately show ?thesis by blast
qed

lemma step_Begin_quiet:
  assumes "quiet now k svc" and "k < 100" and "j < length cs"
    and "cs ! j = new_call key t"
  shows "\<exists>svc'. step (Begin j now) \<lparr>service = svc, calls = cs\<rparr>
                   = \<lparr>service = svc', calls = cs[j := (new_call key t)\<lparr>pc := AwaitingGet None\<rparr>]\<rparr>
                 \<and> quiet now (Suc k) svc'"
proof -
  have u: "useCache (new_call key t :: 'a call)" by (simp add: new_call_def)
  obtain svc' where b: "begin_call now (new_call key t) svc
                          = ((new_call key t)\<lparr>pc := AwaitingGet None\<rparr>, svc')"
    and q: "quiet now (Suc k) svc'"
    using begin_call_quiet [OF assms(1,2) u] by blast
  have "step (Begin j now) \<lparr>service = svc, calls = cs\<rparr>
          = \<lparr>service = svc', calls = cs[j := (new_call key t)\<lparr>pc := AwaitingGet None\<rparr>]\<rparr>"
    using assms(3,4) b by (simp add: on_call_def new_call_def)
  with q show ?thesis by blast
qed

lemma step_Resume_miss:
  assumes "j < length cs" and "cs ! j = (new_call key t)\<lparr>pc := AwaitingGet None\<rparr>"
  shows "\<exists>svc'. step (Resume j) \<lparr>service = svc, calls = cs\<rparr>
                   = \<lparr>service = svc', calls = cs[j := (new_call key t)\<lparr>pc := AwaitingApi\<rparr>]\<rparr>
                 \<and> True"
  using assms by (simp add: on_call_def resume_call_def new_call_def)

text \<open>After the schedule \<open>concurrent_calls n now\<close> every one of the \<open>n\<close> callers has its
  own upstream fetch in flight.\<close>

lemma concurrent_calls_all_fetch:
  assumes "n \<le> 100"
  shows "calls (run (concurrent_calls n now) (callers cfg n key t :: 'a system))
           = replicate n ((new_call key t)\<lparr>pc := AwaitingApi\<rparr>)"
proof -
  have "\<exists>svc'. run (map (\<lambda>i. Begin i now) [0..<n])
                    \<lparr>service = new_DataGolfService cfg :: 'a service, calls = replicate n (new_call key t)\<rparr>
                 = \<lparr>service = svc',
                    calls = replicate n ((new_call key t)\<lparr>pc := AwaitingGet None\<rparr>)
                            @ replicate (n - n) (new_call key t)\<rparr>
               \<and> quiet now n svc'"
  proof (rule sweep [where Inv = "quiet now"])
    show "quiet now 0 (new_DataGolfService cfg)" by (rule quiet_new)
    show "n \<le> n" by simp
    show "\<exists>svc'. step (Begin j now) \<lparr>service = svc, calls = cs\<rparr>
                    = \<lparr>service = svc', calls = cs[j := (new_call key t)\<lparr>pc := AwaitingGet None\<rparr>]\<rparr>
                  \<and> quiet now (Suc j) svc'"
      if "j < n" "quiet now j svc" "j < length cs" "cs ! j = new_call key t" for j svc cs
      using that assms by (intro step_Begin_quiet) simp_all
  qed
  then obtain svc1 where
    b: "run (map (\<lambda>i. Begin i now) [0..<n]) (callers cfg n key t :: 'a system)
          = \<lparr>service = svc1, calls = replicate n ((new_call key t)\<lparr>pc := AwaitingGet None\<rparr>)\<rparr>"
    by (auto simp: callers_def)
  have "\<exists>svc'. run (map Resume [0..<n])
                    \<lparr>service = svc1,
                     calls = replicate n ((new_call key t)\<lparr>pc := AwaitingGet None\<rparr>)\<rparr>
                 = \<lparr>service = svc',
                    calls = replicate n ((new_call key t)\<lparr>pc := AwaitingApi\<rparr>)
                            @ replicate (n - n) ((new_call key t)\<lparr>pc := AwaitingGet None\<rparr>)\<rparr>
               \<and> True"
  proof (rule sweep [where Inv = "\<lambda>j svc. True"])
    show "True" by simp
    show "n \<le> n" by simp
    show "\<exists>svc'. step (Resume j) \<lparr>service = svc, calls = cs\<rparr>
                    = \<lparr>service = svc', calls = cs[j := (new_call key t)\<lparr>pc := AwaitingApi\<rparr>]\<rparr>
                  \<and> True"
      if "j < length cs" "cs ! j = (new_call key t)\<lparr>pc := AwaitingGet None\<rparr>" for j svc cs
      using that by (rule step_Resume_miss)
  qed
  then obtain svc2 where
    r: "run (map Resume [0..<n])
          \<lparr>service = svc1, calls = replicate n ((new_call key t)\<lparr>pc := AwaitingGet None\<rparr>)\<rparr>
        = \<lparr>service = svc2, calls = replicate n ((new_call key t)\<lparr>pc := AwaitingApi\<rparr>)\<rparr>"
    by auto
  show ?thesis
    unfolding concurrent_calls_def run_append b r by simp
qed

lemma in_flight_replicate:
  "calls sys = replicate n ((new_call key t)\<lparr>pc := AwaitingApi\<rparr>) \<Longrightarrow> in_flight key sys = n"
  by (simp add: in_flight_def new_call_def)

lemma count_update:
  assumes "i < length xs" and "\<not> P (xs ! i)" and "P y"
  shows "length (filter P (xs[i := y])) = length (filter P xs) + 1"
  using assms
proof (induction xs arbitrary: i)
  case Nil
  then show ?case by simp
next
  case (Cons x xs)
  then show ?case by (cases i) simp_all
qed

lemma fst_resume_call:
  "fst (resume_call c svc) =
     (case pc c of
        AwaitingGet (Some cachedData) \<Rightarrow> c\<lparr>pc := Returned cachedData\<rparr>
      | AwaitingGet None \<Rightarrow> c\<lparr>pc := AwaitingApi\<rparr>
      | AwaitingSet data \<Rightarrow> c\<lparr>pc := Returned data\<rparr>
      | _ \<Rightarrow> c)"
  by (simp add: resume_call_def split: pc.splits option.splits)

lemma fst_api_done:
  "fst (api_done now outcome c svc) =
     (case pc c of
        AwaitingApi \<Rightarrow>
          (case outcome of
             Inl e \<Rightarrow> c\<lparr>pc := Thrown (UpstreamError e)\<rparr>
           | Inr data \<Rightarrow> if useCache c then c\<lparr>pc := AwaitingSet data\<rparr>
                         else c\<lparr>pc := Returned data\<rparr>)
      | _ \<Rightarrow> c)"
  by (simp add: api_done_def catch_block_def split: pc.splits sum.splits)

lemma calls_on_call:
  "calls (on_call i segment sys) =
     (if i < length (calls sys)
      then (calls sys)[i := fst (segment (calls sys ! i) (service sys))]
      else calls sys)"
  by (simp add: on_call_def split: prod.splits)

text \<open>
  C3 (as the code has it). \<^verbatim>\<open>_executeWithCaching\<close> keeps no record of fetches in flight.
  When \<open>n\<close> callers, \<open>n\<close> within the limiter's 100 requests a minute, ask a fresh
  service for the same key in the same tick, all \<open>n\<close> probes miss and \<open>n\<close> upstream
  fetches are in flight together. In any state, a call suspended after a missed probe
  launches its own fetch when it resumes, adding one to the fetches in flight for its
  key; and when the fetch of a call settles, that call alone takes the outcome (it throws
  the failure, or goes on with the data) while every other call is left as it is.
\<close>

theorem no_single_flight:
  "(n \<le> 100 \<longrightarrow>
      in_flight key (run (concurrent_calls n now) (callers cfg n key t :: 'a system)) = n)
   \<and> (i < length (calls (sys :: 'a system)) \<and> pc (calls sys ! i) = AwaitingGet None \<longrightarrow>
        pc (calls (step (Resume i) sys) ! i) = AwaitingApi
        \<and> in_flight (cacheKey (calls sys ! i)) (step (Resume i) sys)
            = in_flight (cacheKey (calls sys ! i)) sys + 1)
   \<and> (i < length (calls sys) \<and> pc (calls sys ! i) = AwaitingApi \<longrightarrow>
        pc (calls (step (ApiDone i now' outcome) sys) ! i)
          = (case outcome of
               Inl e \<Rightarrow> Thrown (UpstreamError e)
             | Inr data \<Rightarrow> if useCache (calls sys ! i) then AwaitingSet data
                           else Returned data)
        \<and> (\<forall>j. j \<noteq> i \<longrightarrow> calls (step (ApiDone i now' outcome) sys) ! j = calls sys ! j))"
proof (intro conjI impI allI)
  assume "n \<le> 100"
  then show "in_flight key (run (concurrent_calls n now) (callers cfg n key t :: 'a system)) = n"
    by (intro in_flight_replicate [where t = t] concurrent_calls_all_fetch)
next
  assume a: "i < length (calls sys) \<and> pc (calls sys ! i) = AwaitingGet None"
  then show "pc (calls (step (Resume i) sys) ! i) = AwaitingApi"
    by (simp add: calls_on_call fst_resume_call)
  let ?P = "\<lambda>c. cacheKey c = cacheKey (calls sys ! i) \<and> pc c = AwaitingApi"
  have "length (filter ?P ((calls sys)[i := (calls sys ! i)\<lparr>pc := AwaitingApi\<rparr>]))
          = length (filter ?P (calls sys)) + 1"
    using a by (intro count_update) simp_all
  then show "in_flight (cacheKey (calls sys ! i)) (step (Resume i) sys)
               = in_flight (cacheKey (calls sys ! i)) sys + 1"
    using a by (simp add: in_flight_def calls_on_call fst_resume_call)
next
  assume a: "i < length (calls sys) \<and> pc (calls sys ! i) = AwaitingApi"
  then show "pc (calls (step (ApiDone i now' outcome) sys) ! i)
          = (case outcome of
               Inl e \<Rightarrow> Thrown (UpstreamError e)
             | Inr data \<Rightarrow> if useCache (calls sys ! i) then AwaitingSet data
                           else Returned data)"
    by (simp add: calls_on_call fst_api_done split: sum.splits)
next
  fix j
  assume "j \<noteq> i"
  then show "calls (step (ApiDone i now' outcome) sys) ! j = calls sys ! j"
    by (simp add: calls_on_call)
qed

theorem no_single_flight_witness:
  "in_flight ''scoring:tournamentId:14''
     (run (concurrent_calls 3 1000)
        (callers production_cache 3 ''scoring:tournamentId:14'' (Some 30) :: string system)) = 3
   \<and> in_flight ''scoring:tournamentId:14'' fetch_and_probe = 1
   \<and> in_flight ''scoring:tournamentId:14'' (step (Resume 1) fetch_and_probe) = 2
   \<and> map pc (calls (step (ApiDone 0 1300 (Inl Timeout)) fetch_and_probe))
       = [Thrown (UpstreamError Timeout), AwaitingGet None]"
proof -
  have c: "calls fetch_and_probe =
             [(new_call ''scoring:tournamentId:14'' (Some 30))\<lparr>pc := AwaitingApi\<rparr>,
              (new_call ''scoring:tournamentId:14'' (Some 30))\<lparr>pc := AwaitingGet None\<rparr>]"
    by (simp add: fetch_and_probe_def)
  have one: "in_flight ''scoring:tournamentId:14'' fetch_and_probe = 1"
    by (simp add: in_flight_def c new_call_def)
  have a: "in_flight ''scoring:tournamentId:14''
             (run (concurrent_calls 3 1000)
                (callers production_cache 3 ''scoring:tournamentId:14'' (Some 30) :: string system)) = 3
           \<and> in_flight ''scoring:tournamentId:14'' (step (Resume 1) fetch_and_probe) = 2"
    using no_single_flight
            [of 3 "''scoring:tournamentId:14''" 1000 production_cache "Some 30" 1
                fetch_and_probe 1300 "Inl Timeout"]
          one
    by (simp add: c new_call_def numeral_2_eq_2 del: step.simps)
  have b: "pc (calls (step (ApiDone 0 1300 (Inl Timeout)) fetch_and_probe) ! 0)
             = Thrown (UpstreamError Timeout)
           \<and> calls (step (ApiDone 0 1300 (Inl Timeout)) fetch_and_probe) ! 1
             = calls fetch_and_probe ! 1"
    using no_single_flight
            [of 3 "''scoring:tournamentId:14''" 1000 production_cache "Some 30" 0
                fetch_and_probe 1300 "Inl Timeout"]
    by (simp add: c new_call_def del: step.simps)
  have l: "length (calls (step (ApiDone 0 1300 (Inl Timeout)) fetch_and_probe)) = 2"
    by (simp add: calls_on_call c)
  have m: "map pc (calls (step (ApiDone 0 1300 (Inl Timeout)) fetch_and_probe))
             = [Thrown (UpstreamError Timeout), AwaitingGet None]"
    using b l c
    by (cases "calls (step (ApiDone 0 1300 (Inl Timeout)) fetch_and_probe)")
       (auto simp: new_call_def length_Suc_conv simp del: step.simps)
  from a one m show ?thesis by simp
qed

text \<open>
  C3 (as the specification states it) fails. Two callers ask a fresh service for the
  live scores of the same event in the same tick: both probes miss, and two upstream
  fetches for the one key are in flight together. The first fetch then succeeds and the
  second times out: the first caller goes on to return the data, the second throws the
  timeout; they do not share one result.
\<close>

theorem two_fetches_counterexample:
  "in_flight ''scoring:tournamentId:14''
     (run (concurrent_calls 2 1000)
        (callers production_cache 2 ''scoring:tournamentId:14'' (Some 30) :: string system)) = 2
   \<and> map pc (calls (run (concurrent_calls 2 1000
                            @ [ApiDone 0 1200 (Inr (Plain ''live'')), ApiDone 1 1300 (Inl Timeout),
                               Resume 0])
                        (callers production_cache 2 ''scoring:tournamentId:14'' (Some 30)
                           :: string system)))
       = [Returned (Plain ''live''), Thrown (UpstreamError Timeout)]"
proof -
  have c: "calls (run (concurrent_calls 2 1000)
                   (callers production_cache 2 ''scoring:tournamentId:14'' (Some 30)
                      :: string system))
             = replicate 2 ((new_call ''scoring:tournamentId:14'' (Some 30))\<lparr>pc := AwaitingApi\<rparr>)"
    by (rule concurrent_calls_all_fetch) simp
  have two: "replicate 2 x = [x, x]" for x :: "string call"
    by (simp add: numeral_2_eq_2)
  have n: "in_flight ''scoring:tournamentId:14''
     (run (concurrent_calls 2 1000)
        (callers production_cache 2 ''scoring:tournamentId:14'' (Some 30) :: string system)) = 2"
    using c by (rule in_flight_replicate)
  have r: "map pc (calls (run (concurrent_calls 2 1000
                            @ [ApiDone 0 1200 (Inr (Plain ''live'')), ApiDone 1 1300 (Inl Timeout),
                               Resume 0])
                        (callers production_cache 2 ''scoring:tournamentId:14'' (Some 30)
                           :: string system)))
       = [Returned (Plain ''live''), Thrown (UpstreamError Timeout)]"
    unfolding run_append
    by (simp add: calls_on_call fst_api_done fst_resume_call c two new_call_def)
  from n r show ?thesis by simp
qed

section \<open>Properties of the session token\<close>

lemma encrypt_combined:
  assumes "primitives_ok P"
  shows "from_base64 P (encryptSessionData P salt iv data masterKey)
           = salt @ iv
             @ snd (gcm_encrypt P (pbkdf2Sync P masterKey salt) salt (stringify P data))
             @ fst (gcm_encrypt P (pbkdf2Sync P masterKey salt) salt (stringify P data))"
  using assms by (simp add: encryptSessionData_def primitives_ok_def Let_def split: prod.splits)

text \<open>Decryption reads the token through three slices of its bytes: the salt, the tag
  and the ciphertext.\<close>

lemma decrypt_of_parts:
  assumes "from_base64 P token = salt @ iv @ tag @ encrypted"
    and "length salt = SALT_LENGTH" and "length iv = IV_LENGTH" and "length tag = TAG_LENGTH"
  shows "decryptSessionData P token masterKey =
           (case gcm_decrypt P (pbkdf2Sync P masterKey salt) salt tag encrypted of
              None \<Rightarrow> Inl InvalidSessionToken
            | Some decrypted \<Rightarrow>
                (case parse P decrypted of
                   None \<Rightarrow> Inl InvalidSessionToken
                 | Some data \<Rightarrow> Inr data))"
  using assms by (simp add: decryptSessionData_def slice_def slice_from_def Let_def)

text \<open>The round trip: with a library that keeps its guarantees, a token decrypts to the
  record it was made from.\<close>

lemma decrypt_encrypt:
  assumes ok: "primitives_ok P" and "length salt = SALT_LENGTH" and "length iv = IV_LENGTH"
  shows "decryptSessionData P (encryptSessionData P salt iv data masterKey) masterKey = Inr data"
proof -
  let ?c = "gcm_encrypt P (pbkdf2Sync P masterKey salt) salt (stringify P data)"
  have t: "length (snd ?c) = TAG_LENGTH"
    and d: "gcm_decrypt P (pbkdf2Sync P masterKey salt) salt (snd ?c) (fst ?c)
              = Some (stringify P data)"
    and p: "parse P (stringify P data) = Some data"
    using ok by (simp_all add: primitives_ok_def)
  show ?thesis
    by (simp add: decrypt_of_parts [OF encrypt_combined [OF ok] assms(2,3) t] d p)
qed

lemma flip_bit_changes:
  fixes w :: "8 word"
  assumes "b < 8"
  shows "flip_bit b w \<noteq> w"
proof
  assume "flip_bit b w = w"
  then have "bit (flip_bit b w) b = bit w b" by simp
  then show False using assms by (simp add: bit_flip_bit_iff)
qed

lemma flip_in_iv:
  assumes "length salt = SALT_LENGTH" and "length iv = IV_LENGTH"
    and "SALT_LENGTH \<le> i" and "i < SALT_LENGTH + IV_LENGTH"
  shows "flip_buffer_bit i b (salt @ iv @ rest)
           = salt @ flip_buffer_bit (i - SALT_LENGTH) b iv @ rest"
proof -
  have 1: "\<not> i < length salt" using assms by simp
  have 2: "i - length salt < length iv" using assms by simp
  show ?thesis
    using 1 2 assms(1) by (simp add: flip_buffer_bit_def list_update_append nth_append)
qed

text \<open>Any token whose bytes differ from those of a token of \<^verbatim>\<open>encryptSessionData\<close> only
  inside the field of the initialisation vector decrypts to the same record.\<close>

lemma decryptSessionData_any_iv:
  assumes ok: "primitives_ok P"
    and ls: "length salt = SALT_LENGTH" and li: "length iv = IV_LENGTH"
    and li': "length iv' = IV_LENGTH"
    and t': "from_base64 P token'
               = salt @ iv'
                 @ drop (SALT_LENGTH + IV_LENGTH)
                     (from_base64 P (encryptSessionData P salt iv data masterKey))"
  shows "decryptSessionData P token' masterKey = Inr data"
proof -
  let ?c = "gcm_encrypt P (pbkdf2Sync P masterKey salt) salt (stringify P data)"
  have c': "from_base64 P token' = salt @ iv' @ snd ?c @ fst ?c"
    unfolding t' encrypt_combined [OF ok] using ls li by simp
  have t: "length (snd ?c) = TAG_LENGTH"
    and d: "gcm_decrypt P (pbkdf2Sync P masterKey salt) salt (snd ?c) (fst ?c)
              = Some (stringify P data)"
    and p: "parse P (stringify P data) = Some data"
    using ok by (simp_all add: primitives_ok_def)
  show ?thesis
    by (simp add: decrypt_of_parts [OF c' ls li' t] d p)
qed

text \<open>
  C1 at its failing inputs. For any library that keeps its guarantees, any record, key,
  salt and initialisation vector: take the token that \<^verbatim>\<open>encryptSessionData\<close> returns and a
  token whose bytes differ from it in one bit of one of the bytes 32 to 47, the field of
  the initialisation vector. The second token is another token, and
  \<^verbatim>\<open>decryptSessionData\<close> accepts it and returns the record.
\<close>

theorem decryptSessionData_accepts_flipped_iv:
  assumes ok: "primitives_ok P"
    and ls: "length salt = SALT_LENGTH" and li: "length iv = IV_LENGTH"
    and i: "SALT_LENGTH \<le> i" "i < SALT_LENGTH + IV_LENGTH" and b: "b < 8"
    and t': "from_base64 P token'
               = flip_buffer_bit i b (from_base64 P (encryptSessionData P salt iv data masterKey))"
  shows "token' \<noteq> encryptSessionData P salt iv data masterKey
         \<and> decryptSessionData P token' masterKey = Inr data"
proof -
  let ?c = "gcm_encrypt P (pbkdf2Sync P masterKey salt) salt (stringify P data)"
  let ?iv' = "flip_buffer_bit (i - SALT_LENGTH) b iv"
  have c': "from_base64 P token' = salt @ ?iv' @ snd ?c @ fst ?c"
    unfolding t' encrypt_combined [OF ok] by (rule flip_in_iv [OF ls li i])
  have li': "length ?iv' = IV_LENGTH"
    using li by (simp add: flip_buffer_bit_def)
  have t: "length (snd ?c) = TAG_LENGTH"
    and d: "gcm_decrypt P (pbkdf2Sync P masterKey salt) salt (snd ?c) (fst ?c)
              = Some (stringify P data)"
    and p: "parse P (stringify P data) = Some data"
    using ok by (simp_all add: primitives_ok_def)
  have accepted: "decryptSessionData P token' masterKey = Inr data"
    by (simp add: decrypt_of_parts [OF c' ls li' t] d p)
  have "i - SALT_LENGTH < length iv" using i li by simp
  then have "?iv' ! (i - SALT_LENGTH) \<noteq> iv ! (i - SALT_LENGTH)"
    using b by (simp add: flip_buffer_bit_def flip_bit_changes)
  then have "?iv' \<noteq> iv" by metis
  then have "from_base64 P token' \<noteq> from_base64 P (encryptSessionData P salt iv data masterKey)"
    unfolding c' encrypt_combined [OF ok] by simp
  then have "token' \<noteq> encryptSessionData P salt iv data masterKey" by metis
  with accepted show ?thesis by simp
qed

lemma char_of_byte: "char_of (unat (of_char c :: 8 word)) = c"
proof -
  have "(of_char c :: 8 word) = of_nat (of_char c)"
    by (simp add: of_nat_of_char)
  then have "unat (of_char c :: 8 word) = of_char c mod 256"
    by (simp add: unat_of_nat)
  then show ?thesis by simp
qed

lemma byte_of_char: "of_char (char_of (unat w)) = (w :: 8 word)"
proof -
  have "(of_char (char_of (unat w)) :: 8 word) = of_nat (of_char (char_of (unat w)))"
    by (simp only: of_nat_of_char)
  also have "\<dots> = of_nat (unat w mod 256)"
    by (simp only: of_char_of)
  also have "\<dots> = w"
    using unsigned_less [of w, where ?'a = nat] by simp
  finally show ?thesis .
qed

lemma standin_ok: "primitives_ok standin"
proof -
  have "map (\<lambda>w. char_of (unat w)) (map of_char s :: bytes) = s" for s :: string
    by (induction s) (simp_all add: char_of_byte)
  moreover have "map of_char (map (\<lambda>w. char_of (unat w)) buf) = buf" for buf :: bytes
    by (induction buf) (simp_all add: byte_of_char)
  moreover have "length (standin_tag key aad pt) = 16" for key aad pt
    unfolding standin_tag_def by (simp del: take_append)
  ultimately show ?thesis
    by (simp add: primitives_ok_def standin_def TAG_LENGTH_def)
qed

theorem decryptSessionData_accepts_flipped_iv_witness:
  "to_base64 standin
       (flip_buffer_bit 33 0
          (from_base64 standin
             (encryptSessionData standin (replicate 32 1) (replicate 16 2) ''{}'' ''master-key'')))
     \<noteq> encryptSessionData standin (replicate 32 1) (replicate 16 2) ''{}'' ''master-key''
   \<and> decryptSessionData standin
         (to_base64 standin
            (flip_buffer_bit 33 0
               (from_base64 standin
                  (encryptSessionData standin (replicate 32 1) (replicate 16 2) ''{}''
                     ''master-key''))))
         ''master-key''
       = Inr ''{}''"
proof (rule decryptSessionData_accepts_flipped_iv [OF standin_ok])
  show "length (replicate 32 (1 :: 8 word)) = SALT_LENGTH" by (simp add: SALT_LENGTH_def)
  show "length (replicate 16 (2 :: 8 word)) = IV_LENGTH" by (simp add: IV_LENGTH_def)
  show "SALT_LENGTH \<le> 33" by (simp add: SALT_LENGTH_def)
  show "33 < SALT_LENGTH + IV_LENGTH" by (simp add: SALT_LENGTH_def IV_LENGTH_def)
  show "(0 :: nat) < 8" by simp
  show "from_base64 standin
          (to_base64 standin
             (flip_buffer_bit 33 0
                (from_base64 standin
                   (encryptSessionData standin (replicate 32 1) (replicate 16 2) ''{}''
                      ''master-key''))))
        = flip_buffer_bit 33 0
            (from_base64 standin
               (encryptSessionData standin (replicate 32 1) (replicate 16 2) ''{}''
                  ''master-key''))"
    using standin_ok by (simp add: primitives_ok_def)
qed

end
